theory Spec2Isabelle
  imports Complex_Main
begin

section \<open>Data model\<close>

text \<open>
  The playback state of \<^verbatim>\<open>usePlaybackState.ts\<close> (type \<^verbatim>\<open>PlaybackState\<close>): the
  hook creates it as \<^verbatim>\<open>{isPlaying: false, currentTime: 0, duration: 0, isLoading: true}\<close>,
  and the handlers also write the optional field \<^verbatim>\<open>error\<close>. JavaScript numbers that
  hold seconds are modelled as \<^typ>\<open>real\<close>, \<^verbatim>\<open>Date.now()\<close> as an \<^typ>\<open>int\<close> of
  milliseconds.
\<close>

record PlaybackState =
  isPlaying :: bool
  currentTime :: real
  duration :: real
  isLoading :: bool
  error :: "string option"

text \<open>
  \<^verbatim>\<open>Partial<PlaybackState>\<close>: every field may be absent (\<open>None\<close>). The handlers pass
  \<^verbatim>\<open>error: undefined\<close> as an own property, which the spread copies: that is
  \<open>Some None\<close> here.
\<close>

record PlaybackStateUpdates =
  upd_isPlaying :: "bool option"
  upd_currentTime :: "real option"
  upd_duration :: "real option"
  upd_isLoading :: "bool option"
  upd_error :: "string option option"

definition noUpdates :: PlaybackStateUpdates where
  "noUpdates = \<lparr>upd_isPlaying = None, upd_currentTime = None, upd_duration = None,
     upd_isLoading = None, upd_error = None\<rparr>"

definition initialPlaybackState :: PlaybackState where
  "initialPlaybackState = \<lparr>isPlaying = False, currentTime = 0, duration = 0,
     isLoading = True, error = None\<rparr>"

text \<open>
  \<^verbatim>\<open>updatePlaybackState(updates)\<close>, that is
  \<^verbatim>\<open>setPlaybackState((prev) => ({ ...prev, ...updates }))\<close>: the state after the call,
  from the partial and the state before.
\<close>

definition updatePlaybackState :: "PlaybackStateUpdates \<Rightarrow> PlaybackState \<Rightarrow> PlaybackState" where
  "updatePlaybackState updates prev =
     \<lparr>isPlaying = (case upd_isPlaying updates of None \<Rightarrow> isPlaying prev | Some v \<Rightarrow> v),
      currentTime = (case upd_currentTime updates of None \<Rightarrow> currentTime prev | Some v \<Rightarrow> v),
      duration = (case upd_duration updates of None \<Rightarrow> duration prev | Some v \<Rightarrow> v),
      isLoading = (case upd_isLoading updates of None \<Rightarrow> isLoading prev | Some v \<Rightarrow> v),
      error = (case upd_error updates of None \<Rightarrow> error prev | Some v \<Rightarrow> v)\<rparr>"

text \<open>A sequence of \<^verbatim>\<open>updatePlaybackState\<close> calls, applied in the order they are made.\<close>

definition applyUpdates :: "PlaybackState \<Rightarrow> PlaybackStateUpdates list \<Rightarrow> PlaybackState" where
  "applyUpdates = foldl (\<lambda>prev updates. updatePlaybackState updates prev)"

text \<open>
  The claim's words: the value a field has in the last partial of the sequence that
  provides it, if any partial does.
\<close>

fun lastProvided :: "('u \<Rightarrow> 'v option) \<Rightarrow> 'u list \<Rightarrow> 'v option" where
  "lastProvided f [] = None"
| "lastProvided f (u # us) =
     (case lastProvided f us of Some v \<Rightarrow> Some v | None \<Rightarrow> f u)"

subsection \<open>Playback position store\<close>

record PlaybackPosition =
  videoId :: string
  position :: real
  timestamp :: int

type_synonym positions = "string \<rightharpoonup> PlaybackPosition"

text \<open>
  \<^verbatim>\<open>savePlaybackPosition\<close> and \<^verbatim>\<open>getSavedPosition\<close>, with the hook's \<^verbatim>\<open>videoId\<close>,
  the reading of \<^verbatim>\<open>Date.now()\<close> and the map held by the ref made explicit.
\<close>

definition savePlaybackPosition :: "string \<Rightarrow> real \<Rightarrow> int \<Rightarrow> positions \<Rightarrow> positions" where
  "savePlaybackPosition vid pos dateNow m =
     (if pos > 30
      then m(vid \<mapsto> \<lparr>videoId = vid, position = pos, timestamp = dateNow\<rparr>)
      else m)"

definition clearPlaybackPosition :: "string \<Rightarrow> positions \<Rightarrow> positions" where
  "clearPlaybackPosition vid m = m(vid := None)"

definition getSavedPosition :: "string \<Rightarrow> int \<Rightarrow> positions \<Rightarrow> real" where
  "getSavedPosition vid dateNow m =
     (case m vid of
        Some savedPosition \<Rightarrow>
          (let isRecent = (dateNow - timestamp savedPosition < 24 * 60 * 60 * 1000)
           in if isRecent then position savedPosition else 0)
      | None \<Rightarrow> 0)"

section \<open>The playback primitive\<close>

text \<open>
  The player object of \<^verbatim>\<open>expo-video\<close> is not code of this repository. The driver
  reads four of its properties and issues four commands; any command may throw. The
  primitive is therefore a parameter of the model: a state type \<open>'p\<close>, the four
  readings, the state a new player starts in, the configuration done by the setup
  callback, and the effect of each command (\<open>Inl\<close> when it throws; the primitive's
  state is then taken as unchanged).
\<close>

datatype fault = Fault string

datatype command = Play | Pause | SetCurrentTime real | Replace string

record 'p primitive =
  player_playing :: "'p \<Rightarrow> bool"
  player_currentTime :: "'p \<Rightarrow> real"
  player_duration :: "'p \<Rightarrow> real"
  player_status :: "'p \<Rightarrow> string"
  create :: "string \<Rightarrow> 'p"
  configure :: "'p \<Rightarrow> fault + 'p"
  exec :: "command \<Rightarrow> 'p \<Rightarrow> fault + 'p"

text \<open>\<^verbatim>\<open>x || 0\<close> on a number: \<open>0\<close> when \<open>x\<close> is falsy.\<close>

definition orZero :: "real \<Rightarrow> real" where
  "orZero x = (if x = 0 then 0 else x)"

section \<open>The player session\<close>

datatype control = Back | SeekBackward | PlayPause | SeekForward | Progress

text \<open>
  The callbacks that the code hands to \<^verbatim>\<open>setTimeout\<close>: the commit of
  \<^verbatim>\<open>handleSeek\<close>, the commit of \<^verbatim>\<open>handleSeekWithPause\<close> and the resume nested in
  it, the loading timeout, the restore of a saved position, and the hiding of the
  controls.
\<close>

datatype callback =
  SeekCommit real
| SeekResumeCommit real
| ResumePlayback
| LoadingTimeout
| RestorePosition real
| HideControls

record timer =
  timer_id :: nat
  due :: int
  action :: callback

text \<open>
  Everything one mounted \<^verbatim>\<open>VideoPlayer\<close> holds: its props, the state and refs of
  \<^verbatim>\<open>usePlaybackState\<close>, \<^verbatim>\<open>useVideoHandler\<close> and of the component, and the
  environment (the clock, the pending timers in firing order, and the commands issued
  to the primitive so far, in order, whether or not they threw).

  The model is sequential, as the JavaScript event loop is: a handler or a timer
  callback runs to its end before the next one starts. It takes React at its simplest:
  a state update is applied at once, and every handler sees the state of the latest
  render. Reading a property of the player does not throw; only commands do. The
  periodic progress tick (\<^verbatim>\<open>setInterval\<close>) issues no command to the primitive and is
  left out; so are the \<^verbatim>\<open>console\<close> calls.
\<close>

record 'p session =
  props_videoId :: string
  url :: string
  hlsUrl :: string
  isTV :: bool
  playbackState :: PlaybackState
  playbackPositions :: positions
  player :: 'p
  seekTimeout :: "nat option"
  wasPlayingBeforeSeek :: bool
  loadingTimeout :: "nat option"
  showControls :: bool
  focusedControl :: "control option"
  hideControlsTimeout :: "nat option"
  closeCalls :: nat
  now :: int
  timers :: "timer list"
  nextTimerId :: nat
  issued :: "command list"

definition setPlaybackState :: "PlaybackStateUpdates \<Rightarrow> 'p session \<Rightarrow> 'p session" where
  "setPlaybackState updates s =
     s\<lparr>playbackState := updatePlaybackState updates (playbackState s)\<rparr>"

definition savePosition :: "real \<Rightarrow> 'p session \<Rightarrow> 'p session" where
  "savePosition pos s =
     s\<lparr>playbackPositions :=
         savePlaybackPosition (props_videoId s) pos (now s) (playbackPositions s)\<rparr>"

subsection \<open>Timers\<close>

text \<open>The queue is kept in firing order: by due time, and by age among equal due times.\<close>

fun enqueue :: "timer \<Rightarrow> timer list \<Rightarrow> timer list" where
  "enqueue t [] = [t]"
| "enqueue t (x # xs) = (if due x \<le> due t then x # enqueue t xs else t # x # xs)"

definition setTimeout :: "callback \<Rightarrow> int \<Rightarrow> 'p session \<Rightarrow> nat \<times> 'p session" where
  "setTimeout cb delay s =
     (nextTimerId s,
      s\<lparr>timers := enqueue \<lparr>timer_id = nextTimerId s, due = now s + delay, action = cb\<rparr> (timers s),
        nextTimerId := Suc (nextTimerId s)\<rparr>)"

definition clearTimeout :: "nat \<Rightarrow> 'p session \<Rightarrow> 'p session" where
  "clearTimeout i s = s\<lparr>timers := filter (\<lambda>t. timer_id t \<noteq> i) (timers s)\<rparr>"

text \<open>
  \<^verbatim>\<open>if (ref.current) { clearTimeout(ref.current); }\<close>: a ref that was never set is
  \<open>None\<close>; timer ids are positive, so a ref that was set is truthy.
\<close>

definition clearIfSet :: "nat option \<Rightarrow> 'p session \<Rightarrow> 'p session" where
  "clearIfSet r s = (case r of None \<Rightarrow> s | Some i \<Rightarrow> clearTimeout i s)"

subsection \<open>Commands to the primitive\<close>

definition issue :: "'p primitive \<Rightarrow> command \<Rightarrow> 'p session \<Rightarrow> fault option \<times> 'p session" where
  "issue P c s =
     (case exec P c (player s) of
        Inl e \<Rightarrow> (Some e, s\<lparr>issued := issued s @ [c]\<rparr>)
      | Inr p \<Rightarrow> (None, s\<lparr>player := p, issued := issued s @ [c]\<rparr>))"

subsection \<open>The handlers of \<^verbatim>\<open>useVideoHandler\<close>\<close>

text \<open>
  A handler returns \<open>Inr\<close> of the session it leaves, or \<open>Inl\<close> of the exception that
  leaves it uncaught.
\<close>

definition handlePlayPause :: "'p primitive \<Rightarrow> 'p session \<Rightarrow> fault + 'p session" where
  "handlePlayPause P s =
     (case issue P (if player_playing P (player s) then Pause else Play) s of
        (Some e, s1) \<Rightarrow>
          Inr (setPlaybackState
                 (noUpdates\<lparr>upd_error := Some (Some ''Failed to control video playback'')\<rparr>) s1)
      | (None, s1) \<Rightarrow>
          Inr (setPlaybackState
                 (noUpdates\<lparr>upd_isPlaying := Some (\<not> player_playing P (player s1))\<rparr>) s1))"

definition handleSeek :: "'p primitive \<Rightarrow> real \<Rightarrow> 'p session \<Rightarrow> fault + 'p session" where
  "handleSeek P pos s =
     (let s1 = clearIfSet (seekTimeout s) s in
      case (if player_playing P (player s1)
            then (case issue P Pause s1 of
                    (Some e, s2) \<Rightarrow> Inl s2
                  | (None, s2) \<Rightarrow>
                      Inr (setPlaybackState (noUpdates\<lparr>upd_isPlaying := Some False\<rparr>) s2))
            else Inr s1) of
        Inl s2 \<Rightarrow>
          Inr (setPlaybackState
                 (noUpdates\<lparr>upd_error := Some (Some ''Failed to seek in video'')\<rparr>) s2)
      | Inr s3 \<Rightarrow>
          (case setTimeout (SeekCommit pos) 300
                  (setPlaybackState (noUpdates\<lparr>upd_currentTime := Some pos\<rparr>) s3) of
             (i, s4) \<Rightarrow> Inr (s4\<lparr>seekTimeout := Some i\<rparr>)))"

definition handleSeekWithPause :: "'p primitive \<Rightarrow> real \<Rightarrow> 'p session \<Rightarrow> fault + 'p session" where
  "handleSeekWithPause P pos s =
     (let s1 = s\<lparr>wasPlayingBeforeSeek := player_playing P (player s)\<rparr> in
      case (if player_playing P (player s1)
            then (case issue P Pause s1 of
                    (Some e, s2) \<Rightarrow> Inl e
                  | (None, s2) \<Rightarrow>
                      Inr (setPlaybackState (noUpdates\<lparr>upd_isPlaying := Some False\<rparr>) s2))
            else Inr s1) of
        Inl e \<Rightarrow> Inl e
      | Inr s3 \<Rightarrow>
          (case setTimeout (SeekResumeCommit pos) 100
                  (setPlaybackState (noUpdates\<lparr>upd_currentTime := Some pos\<rparr>)
                     (clearIfSet (seekTimeout s3) s3)) of
             (i, s4) \<Rightarrow> Inr (s4\<lparr>seekTimeout := Some i\<rparr>)))"

definition handleSeekForward :: "'p primitive \<Rightarrow> 'p session \<Rightarrow> fault + 'p session" where
  "handleSeekForward P s =
     handleSeekWithPause P
       (min (currentTime (playbackState s) + 10) (duration (playbackState s))) s"

definition handleSeekBackward :: "'p primitive \<Rightarrow> 'p session \<Rightarrow> fault + 'p session" where
  "handleSeekBackward P s =
     handleSeekWithPause P (max (currentTime (playbackState s) - 10) 0) s"

definition videoSource :: "bool \<Rightarrow> string \<Rightarrow> string \<Rightarrow> string" where
  "videoSource tv u h = (if tv then h else u)"

definition handleRetry :: "'p primitive \<Rightarrow> 'p session \<Rightarrow> fault + 'p session" where
  "handleRetry P s =
     (let s1 = setPlaybackState
                 (noUpdates\<lparr>upd_isLoading := Some True, upd_error := Some None,
                    upd_currentTime := Some 0, upd_isPlaying := Some False\<rparr>) s;
          s2 = clearIfSet (seekTimeout s1) s1;
          isCurrentlyHLS = (videoSource (isTV s2) (url s2) (hlsUrl s2) = hlsUrl s2);
          fallbackSource = (if isCurrentlyHLS then url s2 else hlsUrl s2)
      in case issue P (Replace fallbackSource) s2 of
           (Some e, s3) \<Rightarrow>
             Inr (setPlaybackState
                    (noUpdates\<lparr>upd_isLoading := Some False,
                       upd_error := Some (Some ''Failed to retry video playback'')\<rparr>) s3)
         | (None, s3) \<Rightarrow> Inr s3)"

subsection \<open>Timer callbacks\<close>

fun fire :: "'p primitive \<Rightarrow> callback \<Rightarrow> 'p session \<Rightarrow> fault + 'p session" where
  "fire P (SeekCommit pos) s =
     (case issue P (SetCurrentTime pos) s of
        (Some e, s1) \<Rightarrow>
          Inr (setPlaybackState
                 (noUpdates\<lparr>upd_error := Some (Some ''Failed to seek to position'')\<rparr>) s1)
      | (None, s1) \<Rightarrow> Inr (savePosition pos s1))"
| "fire P (SeekResumeCommit pos) s =
     (case issue P (SetCurrentTime pos) s of
        (Some e, s1) \<Rightarrow> Inl e
      | (None, s1) \<Rightarrow>
          (let s2 = savePosition pos s1
           in if wasPlayingBeforeSeek s2
              then Inr (snd (setTimeout ResumePlayback 300 s2))
              else Inr s2))"
| "fire P ResumePlayback s =
     (case issue P Play s of
        (Some e, s1) \<Rightarrow> Inl e
      | (None, s1) \<Rightarrow>
          Inr (setPlaybackState (noUpdates\<lparr>upd_isPlaying := Some True\<rparr>) s1))"
| "fire P LoadingTimeout s =
     (if player_status P (player s) = ''loading''
      then Inr (setPlaybackState
                  (noUpdates\<lparr>upd_error :=
                       Some (Some ''Video took too long to load. Please try again.''),
                     upd_isLoading := Some False\<rparr>) s)
      else Inr s)"
| "fire P (RestorePosition pos) s =
     (case issue P (SetCurrentTime pos) s of (r, s1) \<Rightarrow> Inr s1)"
| "fire P HideControls s = Inr (s\<lparr>showControls := False\<rparr>)"

subsection \<open>The \<^verbatim>\<open>statusChange\<close> listener\<close>

text \<open>
  The event carries \<^verbatim>\<open>status.status\<close> and \<^verbatim>\<open>status.error\<close>; the latter is absent, a
  string, or an object whose \<^verbatim>\<open>message\<close> may be absent.
\<close>

datatype errorPayload = ErrorString string | ErrorObject "string option"

record statusEvent =
  status :: string
  statusError :: "errorPayload option"

definition errorMessage :: "errorPayload option \<Rightarrow> string" where
  "errorMessage e =
     (case e of
        Some (ErrorString m) \<Rightarrow> m
      | Some (ErrorObject (Some m)) \<Rightarrow>
          (if m = '''' then ''Video playback error occurred'' else m)
      | Some (ErrorObject None) \<Rightarrow> ''Video playback error occurred''
      | None \<Rightarrow> ''Video playback error occurred'')"

definition statusChange :: "'p primitive \<Rightarrow> statusEvent \<Rightarrow> 'p session \<Rightarrow> 'p session" where
  "statusChange P ev s =
     (if status ev = ''idle'' then
        setPlaybackState
          (noUpdates\<lparr>upd_isPlaying := Some False, upd_isLoading := Some False,
             upd_error := Some None\<rparr>) s
      else if status ev = ''loading'' then
        (let isActuallyLoading =
               (player_currentTime P (player s) = 0 \<or> \<not> player_playing P (player s))
         in setPlaybackState
              (noUpdates\<lparr>upd_isLoading := Some isActuallyLoading, upd_error := Some None\<rparr>) s)
      else if status ev = ''readyToPlay'' then
        setPlaybackState
          (noUpdates\<lparr>upd_isLoading := Some False,
             upd_duration := Some (orZero (player_duration P (player s))),
             upd_error := Some None\<rparr>)
          (clearIfSet (loadingTimeout s) s)
      else if status ev = ''error'' then
        setPlaybackState
          (noUpdates\<lparr>upd_isLoading := Some False, upd_isPlaying := Some False,
             upd_error := Some (Some (errorMessage (statusError ev)))\<rparr>) s
      else
        setPlaybackState
          (noUpdates\<lparr>upd_isPlaying := Some (player_playing P (player s)),
             upd_duration := Some (orZero (player_duration P (player s))),
             upd_currentTime := Some (orZero (player_currentTime P (player s)))\<rparr>) s)"

subsection \<open>The remote-control handler of \<^verbatim>\<open>VideoPlayer\<close>\<close>

definition showControlsWithTimer :: "'p session \<Rightarrow> 'p session" where
  "showControlsWithTimer s =
     (case setTimeout HideControls 3000
             (clearIfSet (hideControlsTimeout s) (s\<lparr>showControls := True\<rparr>)) of
        (i, s1) \<Rightarrow> s1\<lparr>hideControlsTimeout := Some i\<rparr>)"

definition onClose :: "'p session \<Rightarrow> 'p session" where
  "onClose s = s\<lparr>closeCalls := Suc (closeCalls s)\<rparr>"

definition controls :: "control list" where
  "controls = [Back, SeekBackward, PlayPause, SeekForward]"

text \<open>
  \<^verbatim>\<open>Array.prototype.indexOf\<close> (\<open>-1\<close> when the element is absent; \<^verbatim>\<open>null\<close> is in no
  list of control names) and the indexed read \<^verbatim>\<open>xs[i]\<close> (\<^verbatim>\<open>undefined\<close>, here
  \<open>None\<close>, out of range).
\<close>

fun indexOf :: "'a list \<Rightarrow> 'a \<Rightarrow> int" where
  "indexOf [] x = - 1"
| "indexOf (y # ys) x =
     (if y = x then 0 else (let i = indexOf ys x in if i < 0 then - 1 else i + 1))"

definition indexOfFocus :: "control list \<Rightarrow> control option \<Rightarrow> int" where
  "indexOfFocus cs f = (case f of None \<Rightarrow> - 1 | Some c \<Rightarrow> indexOf cs c)"

fun elementAt :: "'a list \<Rightarrow> int \<Rightarrow> 'a option" where
  "elementAt [] i = None"
| "elementAt (y # ys) i = (if i = 0 then Some y else if i < 0 then None else elementAt ys (i - 1))"

record remoteEvent =
  eventType :: string
  eventKeyAction :: int

text \<open>Sequencing: the statement after a call runs only when the call did not throw.\<close>

definition andThen :: "fault + 'a \<Rightarrow> ('a \<Rightarrow> 'b) \<Rightarrow> fault + 'b" where
  "andThen r f = (case r of Inl e \<Rightarrow> Inl e | Inr a \<Rightarrow> Inr (f a))"

definition handleTVRemoteKey :: "'p primitive \<Rightarrow> remoteEvent \<Rightarrow> 'p session \<Rightarrow> fault + 'p session" where
  "handleTVRemoteKey P evt s =
     (if eventKeyAction evt = 1 then
        (if eventType evt = ''playPause'' \<or> eventType evt = ''select'' then
           andThen
             (if focusedControl s = Some Back then Inr (onClose s)
              else if focusedControl s = Some PlayPause then handlePlayPause P s
              else if focusedControl s = Some SeekBackward then handleSeekBackward P s
              else if focusedControl s = Some SeekForward then handleSeekForward P s
              else Inr s)
             showControlsWithTimer
         else if eventType evt = ''left'' then
           andThen
             (if focusedControl s = Some Progress then
                (let newTime = max 0 (currentTime (playbackState s) - 10)
                 in handleSeek P newTime s)
              else
                (let currentIndex = indexOfFocus controls (focusedControl s);
                     newIndex = max 0 (currentIndex - 1)
                 in Inr (s\<lparr>focusedControl := elementAt controls newIndex\<rparr>)))
             showControlsWithTimer
         else if eventType evt = ''right'' then
           andThen
             (if focusedControl s = Some Progress then
                (let newTime = min (duration (playbackState s)) (currentTime (playbackState s) + 10)
                 in handleSeek P newTime s)
              else
                (let currentIndex = indexOfFocus controls (focusedControl s);
                     newIndex = min (int (length controls) - 1) (currentIndex + 1)
                 in Inr (s\<lparr>focusedControl := elementAt controls newIndex\<rparr>)))
             showControlsWithTimer
         else if eventType evt = ''up'' then
           Inr (showControlsWithTimer
                  (if focusedControl s = Some Progress
                   then s\<lparr>focusedControl := Some PlayPause\<rparr>
                   else s\<lparr>focusedControl := Some Back\<rparr>))
         else if eventType evt = ''down'' then
           Inr (showControlsWithTimer
                  (if focusedControl s \<noteq> Some Progress
                   then s\<lparr>focusedControl := Some Progress\<rparr>
                   else s))
         else if eventType evt = ''menu'' \<or> eventType evt = ''back'' then
           Inr (onClose s)
         else Inr (showControlsWithTimer s))
      else Inr s)"

text \<open>A key press of the remote: \<^verbatim>\<open>eventKeyAction\<close> is \<open>1\<close>.\<close>

definition press :: "string \<Rightarrow> remoteEvent" where
  "press ty = \<lparr>eventType = ty, eventKeyAction = 1\<rparr>"

text \<open>Events handled one after the other; an uncaught exception ends the run.\<close>

fun handleTVRemoteKeys :: "'p primitive \<Rightarrow> remoteEvent list \<Rightarrow> 'p session \<Rightarrow> fault + 'p session" where
  "handleTVRemoteKeys P [] s = Inr s"
| "handleTVRemoteKeys P (evt # evts) s =
     (case handleTVRemoteKey P evt s of
        Inl e \<Rightarrow> Inl e
      | Inr s1 \<Rightarrow> handleTVRemoteKeys P evts s1)"

text \<open>
  The press handler of \<^verbatim>\<open>ProgressBar\<close>, whose \<^verbatim>\<open>onSeek\<close> prop the component sets to
  \<^verbatim>\<open>handleSeek\<close>. \<open>barWidth\<close> is \<^verbatim>\<open>400 * scale\<close>, a positive number.
\<close>

definition progressBarPress :: "'p primitive \<Rightarrow> real \<Rightarrow> real \<Rightarrow> 'p session \<Rightarrow> fault + 'p session" where
  "progressBarPress P locationX barWidth s =
     (if duration (playbackState s) > 0 then
        (let seekPosition = (locationX / barWidth) * duration (playbackState s)
         in handleSeek P (max 0 (min (duration (playbackState s)) seekPosition)) s)
      else Inr s)"

subsection \<open>Mounting\<close>

text \<open>The effects that run when the component mounts, in the order the hooks declare them.\<close>

definition restoreEffect :: "'p session \<Rightarrow> 'p session" where
  "restoreEffect s =
     (case playbackPositions s (props_videoId s) of
        Some savedPosition \<Rightarrow>
          (if now s - timestamp savedPosition < 24 * 60 * 60 * 1000
           then s\<lparr>playbackState := (playbackState s)\<lparr>currentTime := position savedPosition\<rparr>\<rparr>
           else s)
      | None \<Rightarrow> s)"

definition validateUrls :: "'p session \<Rightarrow> 'p session" where
  "validateUrls s =
     (if url s = '''' \<and> hlsUrl s = '''' then
        setPlaybackState
          (noUpdates\<lparr>upd_error := Some (Some ''No valid video URL provided''),
             upd_isLoading := Some False\<rparr>) s
      else s)"

definition loadingTimeoutEffect :: "'p session \<Rightarrow> 'p session" where
  "loadingTimeoutEffect s =
     (case setTimeout LoadingTimeout 30000 s of
        (i, s1) \<Rightarrow> s1\<lparr>loadingTimeout := Some i\<rparr>)"

definition readyEffect :: "'p primitive \<Rightarrow> 'p session \<Rightarrow> 'p session" where
  "readyEffect P s =
     (if player_status P (player s) = ''readyToPlay'' then
        (let savedPosition = getSavedPosition (props_videoId s) (now s) (playbackPositions s);
             s1 = (if savedPosition > 0
                   then snd (setTimeout (RestorePosition savedPosition) 200 s)
                   else s)
         in setPlaybackState (noUpdates\<lparr>upd_isLoading := Some False\<rparr>) s1)
      else s)"

definition configurePlayer :: "'p primitive \<Rightarrow> 'p session \<Rightarrow> 'p session" where
  "configurePlayer P s =
     (case configure P (player s) of
        Inl e \<Rightarrow>
          setPlaybackState
            (noUpdates\<lparr>upd_error := Some (Some ''Failed to configure video player''),
               upd_isLoading := Some False\<rparr>) s
      | Inr p \<Rightarrow> s\<lparr>player := p\<rparr>)"

text \<open>The session before any effect has run: the initial values of all state and refs.\<close>

definition newSession :: "'p primitive \<Rightarrow> bool \<Rightarrow> string \<Rightarrow> string \<Rightarrow> string \<Rightarrow> int \<Rightarrow> 'p session" where
  "newSession P tv vid u h dateNow =
     \<lparr>props_videoId = vid, url = u, hlsUrl = h, isTV = tv,
      playbackState = initialPlaybackState,
      playbackPositions = Map.empty,
      player = create P (videoSource tv u h),
      seekTimeout = None,
      wasPlayingBeforeSeek = False,
      loadingTimeout = None,
      showControls = True,
      focusedControl = Some PlayPause,
      hideControlsTimeout = None,
      closeCalls = 0,
      now = dateNow,
      timers = [],
      nextTimerId = 1,
      issued = []\<rparr>"

definition mount :: "'p primitive \<Rightarrow> bool \<Rightarrow> string \<Rightarrow> string \<Rightarrow> string \<Rightarrow> int \<Rightarrow> 'p session" where
  "mount P tv vid u h dateNow =
     readyEffect P (loadingTimeoutEffect (validateUrls (restoreEffect (configurePlayer P
       (newSession P tv vid u h dateNow)))))"

subsection \<open>The passing of time\<close>

text \<open>
  \<open>runUntil P T s\<close> lets the clock reach \<open>T\<close>: the pending timers due by then fire in
  order, each at its due time, and a callback may set further timers. An exception that
  leaves a callback uncaught ends the run.
\<close>

fun weight :: "callback \<Rightarrow> nat" where
  "weight (SeekResumeCommit pos) = 2"
| "weight c = 1"

definition pendingWork :: "timer list \<Rightarrow> nat" where
  "pendingWork ts = sum_list (map (\<lambda>t. weight (action t)) ts)"

lemma pendingWork_enqueue:
  "pendingWork (enqueue t ts) = weight (action t) + pendingWork ts"
  by (induction ts) (auto simp: pendingWork_def)

lemma issue_timers: "issue P c s = (r, s1) \<Longrightarrow> timers s1 = timers s"
  by (auto simp: issue_def split: sum.splits)

lemma fire_pendingWork:
  "fire P c s = Inr s1 \<Longrightarrow> pendingWork (timers s1) < weight c + pendingWork (timers s)"
  by (cases c)
     (auto simp: setPlaybackState_def savePosition_def setTimeout_def pendingWork_enqueue
           Let_def dest!: issue_timers split: prod.splits option.splits if_splits)

function runUntil :: "'p primitive \<Rightarrow> int \<Rightarrow> 'p session \<Rightarrow> fault + 'p session" where
  "runUntil P T s =
     (case timers s of
        [] \<Rightarrow> Inr (s\<lparr>now := max (now s) T\<rparr>)
      | t # ts \<Rightarrow>
          if due t \<le> T
          then (case fire P (action t) (s\<lparr>timers := ts, now := max (now s) (due t)\<rparr>) of
                  Inl e \<Rightarrow> Inl e
                | Inr s1 \<Rightarrow> runUntil P T s1)
          else Inr (s\<lparr>now := max (now s) T\<rparr>))"
  by pat_completeness auto
termination
proof (relation "measure (\<lambda>(P, T, s). pendingWork (timers s))")
  show "wf (measure (\<lambda>(P, T, s). pendingWork (timers s)))" by simp
next
  fix P :: "'p primitive" and T :: int and s :: "'p session" and t ts s1
  assume q: "timers s = t # ts" and "due t \<le> T"
    and f: "fire P (action t) (s\<lparr>timers := ts, now := max (now s) (due t)\<rparr>) = Inr s1"
  from fire_pendingWork [OF f] q
  show "((P, T, s1), (P, T, s)) \<in> measure (\<lambda>(P, T, s). pendingWork (timers s))"
    by (simp add: pendingWork_def)
qed

declare runUntil.simps [simp del]

section \<open>Primitives for concrete runs\<close>

text \<open>
  Three stand-ins for the primitive, used where a statement is evaluated on a concrete
  input. They share the state and the readings and differ in what a command does:
  \<open>promptPlayer\<close> applies it before the call returns, \<open>lazyPlayer\<close> accepts it and still
  shows the old readings when the call returns, \<open>brokenPlayer\<close> throws on every command.
\<close>

record fakePlayer =
  fake_playing :: bool
  fake_currentTime :: real
  fake_duration :: real
  fake_status :: string

definition fakePrimitive ::
  "(command \<Rightarrow> fakePlayer \<Rightarrow> fault + fakePlayer) \<Rightarrow> fakePlayer primitive" where
  "fakePrimitive ex =
     \<lparr>player_playing = fake_playing,
      player_currentTime = fake_currentTime,
      player_duration = fake_duration,
      player_status = fake_status,
      create = (\<lambda>src. \<lparr>fake_playing = False, fake_currentTime = 0, fake_duration = 0,
                        fake_status = ''loading''\<rparr>),
      configure = Inr,
      exec = ex\<rparr>"

fun promptExec :: "command \<Rightarrow> fakePlayer \<Rightarrow> fault + fakePlayer" where
  "promptExec Play p = Inr (p\<lparr>fake_playing := True\<rparr>)"
| "promptExec Pause p = Inr (p\<lparr>fake_playing := False\<rparr>)"
| "promptExec (SetCurrentTime t) p = Inr (p\<lparr>fake_currentTime := t\<rparr>)"
| "promptExec (Replace src) p =
     Inr (p\<lparr>fake_playing := False, fake_currentTime := 0, fake_status := ''loading''\<rparr>)"

definition promptPlayer :: "fakePlayer primitive" where
  "promptPlayer = fakePrimitive promptExec"


definition brokenPlayer :: "fakePlayer primitive" where
  "brokenPlayer = fakePrimitive (\<lambda>c p. Inl (Fault ''player released''))"

text \<open>A session during playback: the player is running at 50 of 100 seconds, no timer is pending.\<close>

definition playingSession :: "fakePlayer primitive \<Rightarrow> fakePlayer session" where
  "playingSession P =
     (newSession P False ''v1'' ''https://x/v.mp4'' ''https://x/hls.m3u8'' 0)
       \<lparr>player := \<lparr>fake_playing = True, fake_currentTime = 50, fake_duration = 100,
                   fake_status = ''readyToPlay''\<rparr>,
        playbackState := \<lparr>isPlaying = True, currentTime = 50, duration = 100,
                          isLoading = False, error = None\<rparr>\<rparr>"

text \<open>
  The same session just after a key of the remote was handled: the timer that hides the
  controls is pending.
\<close>

definition watchingSession :: "fakePlayer primitive \<Rightarrow> fakePlayer session" where
  "watchingSession P = showControlsWithTimer (playingSession P)"

section \<open>Runs\<close>

text \<open>A handler call followed by what happens next, unless the call threw.\<close>

definition thenRun :: "fault + 'a \<Rightarrow> ('a \<Rightarrow> fault + 'b) \<Rightarrow> fault + 'b" where
  "thenRun r f = (case r of Inl e \<Rightarrow> Inl e | Inr a \<Rightarrow> f a)"

text \<open>
  A primitive accepts a command when the command never throws, whatever state the
  primitive is in; \<open>outcome\<close> is the state it is left in.
\<close>

definition accepts :: "'p primitive \<Rightarrow> command \<Rightarrow> bool" where
  "accepts P c = (\<forall>p. \<exists>p'. exec P c p = Inr p')"

definition outcome :: "'p primitive \<Rightarrow> command \<Rightarrow> 'p \<Rightarrow> 'p" where
  "outcome P c p = (case exec P c p of Inl e \<Rightarrow> p | Inr p' \<Rightarrow> p')"

fun isSetCurrentTime :: "command \<Rightarrow> bool" where
  "isSetCurrentTime (SetCurrentTime t) = True"
| "isSetCurrentTime c = False"

text \<open>The \<^verbatim>\<open>pause()\<close> that both seek handlers issue first when the player is playing.\<close>

definition pauseIfPlaying :: "'p primitive \<Rightarrow> 'p session \<Rightarrow> command list" where
  "pauseIfPlaying P s = (if player_playing P (player s) then [Pause] else [])"

text \<open>
  Two seek requests in a row: \<^verbatim>\<open>handleSeek(a)\<close> now, \<^verbatim>\<open>handleSeek(b)\<close> when the clock
  shows \<open>t2\<close>, and then the clock runs on to \<open>T\<close>.
\<close>

definition twoSeeks ::
  "'p primitive \<Rightarrow> real \<Rightarrow> real \<Rightarrow> int \<Rightarrow> int \<Rightarrow> 'p session \<Rightarrow> fault + 'p session" where
  "twoSeeks P a b t2 T s =
     thenRun (handleSeek P a s) (\<lambda>s1.
     thenRun (runUntil P t2 s1) (\<lambda>s2.
     thenRun (handleSeek P b s2) (\<lambda>s3.
     runUntil P T s3)))"

text \<open>
  Timers whose callbacks issue no command and schedule nothing: the hiding of the
  controls and the loading timeout. A queue is quiet when it holds only such timers.
\<close>

fun harmless :: "callback \<Rightarrow> bool" where
  "harmless HideControls = True"
| "harmless LoadingTimeout = True"
| "harmless c = False"

definition quiet :: "timer list \<Rightarrow> bool" where
  "quiet ts = list_all (\<lambda>t. harmless (action t)) ts"

text \<open>The queue after \<^verbatim>\<open>if (ref.current) { clearTimeout(ref.current); }\<close> on ref \<open>r\<close>.\<close>

definition cleared :: "nat option \<Rightarrow> timer list \<Rightarrow> timer list" where
  "cleared r ts = (case r of None \<Rightarrow> ts | Some i \<Rightarrow> filter (\<lambda>t. timer_id t \<noteq> i) ts)"

text \<open>What a harmless callback leaves as it was.\<close>

definition undisturbed :: "'p session \<Rightarrow> 'p session \<Rightarrow> bool" where
  "undisturbed s s' =
     (issued s' = issued s \<and> player s' = player s
      \<and> isPlaying (playbackState s') = isPlaying (playbackState s)
      \<and> currentTime (playbackState s') = currentTime (playbackState s)
      \<and> duration (playbackState s') = duration (playbackState s)
      \<and> wasPlayingBeforeSeek s' = wasPlayingBeforeSeek s
      \<and> seekTimeout s' = seekTimeout s
      \<and> hideControlsTimeout s' = hideControlsTimeout s
      \<and> nextTimerId s' = nextTimerId s
      \<and> props_videoId s' = props_videoId s
      \<and> focusedControl s' = focusedControl s)"

text \<open>
  A session at rest: no seek is in flight (the queue is quiet), and the id that the next
  timer gets is not one the hide-controls ref already holds (ids are handed out once).
\<close>

definition settled :: "'p session \<Rightarrow> bool" where
  "settled s = (quiet (timers s) \<and> hideControlsTimeout s \<noteq> Some (nextTimerId s))"

text \<open>What a run shows: the commands issued since session \<open>s\<close>, and \<^verbatim>\<open>isPlaying\<close> at its end.\<close>

definition commandsSince :: "'p session \<Rightarrow> fault + 'p session \<Rightarrow> fault + command list" where
  "commandsSince s r = map_sum id (\<lambda>s'. drop (length (issued s)) (issued s')) r"

definition isPlayingAfter :: "fault + 'p session \<Rightarrow> fault + bool" where
  "isPlayingAfter r = map_sum id (\<lambda>s'. isPlaying (playbackState s')) r"

text \<open>
  The two seek policies in the spec's words, as the commands the primitive receives
  by the time the clock shows \<open>T\<close> after one request to \<open>pos\<close> made in session \<open>s\<close>.
  Plain seek: pause if playing, commit after 300ms, no resume. Seek-with-resume: pause
  if playing, commit after 100ms, and if it was playing, play again 300ms after the
  commit.
\<close>

definition plainSeekCommands :: "'p primitive \<Rightarrow> 'p session \<Rightarrow> real \<Rightarrow> int \<Rightarrow> command list" where
  "plainSeekCommands P s pos T =
     pauseIfPlaying P s @ (if now s + 300 \<le> T then [SetCurrentTime pos] else [])"

definition seekWithResumeCommands :: "'p primitive \<Rightarrow> 'p session \<Rightarrow> real \<Rightarrow> int \<Rightarrow> command list" where
  "seekWithResumeCommands P s pos T =
     pauseIfPlaying P s
     @ (if now s + 100 \<le> T then [SetCurrentTime pos] else [])
     @ (if now s + 100 + 300 \<le> T \<and> player_playing P (player s) then [Play] else [])"

section \<open>The playback state reducer\<close>

lemma lastProvided_None_iff:
  "lastProvided f us = None \<longleftrightarrow> (\<forall>u \<in> set us. f u = None)"
  by (induction us) (auto split: option.splits)

lemma lastProvided_decompose:
  "lastProvided f us = Some v \<Longrightarrow>
     \<exists>pre u post. us = pre @ u # post \<and> f u = Some v \<and> lastProvided f post = None"
proof (induction us)
  case Nil
  then show ?case by simp
next
  case (Cons a us)
  show ?case
  proof (cases "lastProvided f us")
    case None
    with Cons.prems have "f a = Some v" by simp
    with None have "a # us = [] @ a # us \<and> f a = Some v \<and> lastProvided f us = None"
      by simp
    then show ?thesis by blast
  next
    case (Some x)
    with Cons.prems have "lastProvided f us = Some v" by simp
    with Cons.IH obtain pre u post where
      "us = pre @ u # post" "f u = Some v" "lastProvided f post = None" by blast
    then have "a # us = (a # pre) @ u # post \<and> f u = Some v \<and> lastProvided f post = None"
      by simp
    then show ?thesis by blast
  qed
qed

lemma lastProvided_compose:
  "f u = Some v \<Longrightarrow> lastProvided f post = None \<Longrightarrow> lastProvided f (pre @ u # post) = Some v"
  by (induction pre) simp_all

lemma applyUpdates_Cons:
  "applyUpdates s (u # us) = applyUpdates (updatePlaybackState u s) us"
  by (simp add: applyUpdates_def)

text \<open>
  Claim C7. For every sequence of \<^verbatim>\<open>updatePlaybackState\<close> calls, each field of the
  resulting state is the value given by the last call whose partial provides the field,
  and a field that no partial provides keeps its initial value. (\<open>lastProvided\<close> is
  \<open>None\<close> exactly when no partial of the sequence provides the field, and otherwise the
  value in the last one that does: \<open>lastProvided_None_iff\<close>, \<open>lastProvided_decompose\<close>,
  \<open>lastProvided_compose\<close>.)
\<close>

theorem reducer_last_write_wins:
  "isPlaying (applyUpdates s us) =
     (case lastProvided upd_isPlaying us of None \<Rightarrow> isPlaying s | Some v \<Rightarrow> v)
   \<and> currentTime (applyUpdates s us) =
     (case lastProvided upd_currentTime us of None \<Rightarrow> currentTime s | Some v \<Rightarrow> v)
   \<and> duration (applyUpdates s us) =
     (case lastProvided upd_duration us of None \<Rightarrow> duration s | Some v \<Rightarrow> v)
   \<and> isLoading (applyUpdates s us) =
     (case lastProvided upd_isLoading us of None \<Rightarrow> isLoading s | Some v \<Rightarrow> v)
   \<and> error (applyUpdates s us) =
     (case lastProvided upd_error us of None \<Rightarrow> error s | Some v \<Rightarrow> v)"
proof (induction us arbitrary: s)
  case Nil
  show ?case by (simp add: applyUpdates_def)
next
  case (Cons u us)
  show ?case
    by (simp add: applyUpdates_Cons Cons.IH updatePlaybackState_def split: option.splits)
qed

theorem reducer_last_write_wins_witness:
  "isPlaying (applyUpdates initialPlaybackState
      [noUpdates\<lparr>upd_isPlaying := Some True, upd_error := Some (Some ''e'')\<rparr>,
       noUpdates\<lparr>upd_currentTime := Some 5\<rparr>,
       noUpdates\<lparr>upd_isPlaying := Some False, upd_error := Some None\<rparr>]) = False
   \<and> currentTime (applyUpdates initialPlaybackState
      [noUpdates\<lparr>upd_isPlaying := Some True, upd_error := Some (Some ''e'')\<rparr>,
       noUpdates\<lparr>upd_currentTime := Some 5\<rparr>,
       noUpdates\<lparr>upd_isPlaying := Some False, upd_error := Some None\<rparr>]) = 5
   \<and> duration (applyUpdates initialPlaybackState
      [noUpdates\<lparr>upd_isPlaying := Some True, upd_error := Some (Some ''e'')\<rparr>,
       noUpdates\<lparr>upd_currentTime := Some 5\<rparr>,
       noUpdates\<lparr>upd_isPlaying := Some False, upd_error := Some None\<rparr>]) = 0
   \<and> isLoading (applyUpdates initialPlaybackState
      [noUpdates\<lparr>upd_isPlaying := Some True, upd_error := Some (Some ''e'')\<rparr>,
       noUpdates\<lparr>upd_currentTime := Some 5\<rparr>,
       noUpdates\<lparr>upd_isPlaying := Some False, upd_error := Some None\<rparr>]) = True
   \<and> error (applyUpdates initialPlaybackState
      [noUpdates\<lparr>upd_isPlaying := Some True, upd_error := Some (Some ''e'')\<rparr>,
       noUpdates\<lparr>upd_currentTime := Some 5\<rparr>,
       noUpdates\<lparr>upd_isPlaying := Some False, upd_error := Some None\<rparr>]) = None"
  using reducer_last_write_wins [of initialPlaybackState
      "[noUpdates\<lparr>upd_isPlaying := Some True, upd_error := Some (Some ''e'')\<rparr>,
       noUpdates\<lparr>upd_currentTime := Some 5\<rparr>,
       noUpdates\<lparr>upd_isPlaying := Some False, upd_error := Some None\<rparr>]"]
  by (simp add: noUpdates_def initialPlaybackState_def)

section \<open>The playback position store\<close>

text \<open>
  Claim C6. \<^verbatim>\<open>savePlaybackPosition\<close> stores a position only when it is above 30 (and
  then overwrites the entry of the content id); \<^verbatim>\<open>getSavedPosition\<close> returns the stored
  position exactly when an entry exists and its age is below 24 hours, and 0 otherwise.
  So, on a store with no entry for the id, saving 25 and reading gives 0; saving 45 and
  reading at once gives 45; and reading gives 0 once 24 hours have passed since the save.
\<close>

theorem position_store_save_get:
  "(pos \<le> 30 \<longrightarrow> savePlaybackPosition vid pos t m = m)
   \<and> (30 < pos \<longrightarrow>
        savePlaybackPosition vid pos t m =
          m(vid \<mapsto> \<lparr>videoId = vid, position = pos, timestamp = t\<rparr>))
   \<and> (m vid = None \<longrightarrow> getSavedPosition vid t' m = 0)
   \<and> (m vid = Some e \<longrightarrow>
        getSavedPosition vid t' m =
          (if t' - timestamp e < 24 * 60 * 60 * 1000 then position e else 0))
   \<and> (m vid = None \<longrightarrow> getSavedPosition vid t' (savePlaybackPosition vid 25 t m) = 0)
   \<and> getSavedPosition vid t (savePlaybackPosition vid 45 t m) = 45
   \<and> (24 * 60 * 60 * 1000 \<le> t' - t \<longrightarrow>
        getSavedPosition vid t' (savePlaybackPosition vid 45 t m) = 0)"
  by (simp add: savePlaybackPosition_def getSavedPosition_def)

theorem position_store_save_get_witness:
  "(25::real) \<le> 30 \<and> (30::real) < 45
   \<and> (Map.empty :: positions) ''v1'' = None
   \<and> (24::int) * 60 * 60 * 1000 \<le> 86401000 - 1000
   \<and> savePlaybackPosition ''v1'' 25 1000 Map.empty = Map.empty
   \<and> savePlaybackPosition ''v1'' 45 1000 Map.empty =
       Map.empty(''v1'' \<mapsto> \<lparr>videoId = ''v1'', position = 45, timestamp = 1000\<rparr>)
   \<and> getSavedPosition ''v1'' 86401000 (savePlaybackPosition ''v1'' 25 1000 Map.empty) = 0
   \<and> getSavedPosition ''v1'' 1000 (savePlaybackPosition ''v1'' 45 1000 Map.empty) = 45
   \<and> getSavedPosition ''v1'' 86401000 (savePlaybackPosition ''v1'' 45 1000 Map.empty) = 0
   \<and> (Map.empty(''v1'' \<mapsto> \<lparr>videoId = ''v1'', position = 120, timestamp = 1000\<rparr>)) ''v1''
       = Some \<lparr>videoId = ''v1'', position = 120, timestamp = 1000\<rparr>
   \<and> getSavedPosition ''v1'' 2000
        (Map.empty(''v1'' \<mapsto> \<lparr>videoId = ''v1'', position = 120, timestamp = 1000\<rparr>)) = 120
   \<and> getSavedPosition ''v1'' 2000
        (savePlaybackPosition ''v1'' 25 1500
           (Map.empty(''v1'' \<mapsto> \<lparr>videoId = ''v1'', position = 120, timestamp = 1000\<rparr>)))
       = 120"
  using position_store_save_get [of 25 "''v1''" 1000 Map.empty 86401000 undefined]
    position_store_save_get [of 45 "''v1''" 1000 Map.empty 86401000 undefined]
    position_store_save_get [of 25 "''v1''" 1500
      "Map.empty(''v1'' \<mapsto> \<lparr>videoId = ''v1'', position = 120, timestamp = 1000\<rparr>)"
      2000 "\<lparr>videoId = ''v1'', position = 120, timestamp = 1000\<rparr>"]
  by (simp add: savePlaybackPosition_def getSavedPosition_def)

section \<open>Focus navigation\<close>

lemma focusedControl_showControlsWithTimer:
  "focusedControl (showControlsWithTimer s) = focusedControl s"
  by (simp add: showControlsWithTimer_def setTimeout_def clearIfSet_def clearTimeout_def
      split: option.splits)

lemma press_left_moves_focus:
  "focusedControl s \<noteq> Some Progress \<Longrightarrow>
   handleTVRemoteKey P (press ''left'') s =
     Inr (showControlsWithTimer
           (s\<lparr>focusedControl :=
                elementAt controls (max 0 (indexOfFocus controls (focusedControl s) - 1))\<rparr>))"
  by (simp add: handleTVRemoteKey_def press_def andThen_def Let_def)

lemma press_right_moves_focus:
  "focusedControl s \<noteq> Some Progress \<Longrightarrow>
   handleTVRemoteKey P (press ''right'') s =
     Inr (showControlsWithTimer
           (s\<lparr>focusedControl :=
                elementAt controls
                  (min (int (length controls) - 1)
                     (indexOfFocus controls (focusedControl s) + 1))\<rparr>))"
  by (simp add: handleTVRemoteKey_def press_def andThen_def Let_def)

lemma focusedControl_playingSession:
  "focusedControl (playingSession P) = Some PlayPause"
  by (simp add: playingSession_def newSession_def)

text \<open>
  Claim C8. With \<^verbatim>\<open>playPause\<close> focused, a left press moves the focus to
  \<^verbatim>\<open>seekBackward\<close>, a second one to \<^verbatim>\<open>back\<close>, and a third one leaves it at
  \<^verbatim>\<open>back\<close>: the move along \<^verbatim>\<open>[back, seekBackward, playPause, seekForward]\<close> is
  clamped at the start. No press throws.
\<close>

theorem left_from_playPause_clamps_at_back:
  "map_sum id focusedControl
     (handleTVRemoteKeys P [press ''left''] (s\<lparr>focusedControl := Some PlayPause\<rparr>))
     = Inr (Some SeekBackward)
   \<and> map_sum id focusedControl
     (handleTVRemoteKeys P [press ''left'', press ''left''] (s\<lparr>focusedControl := Some PlayPause\<rparr>))
     = Inr (Some Back)
   \<and> map_sum id focusedControl
     (handleTVRemoteKeys P [press ''left'', press ''left'', press ''left'']
        (s\<lparr>focusedControl := Some PlayPause\<rparr>))
     = Inr (Some Back)"
  by (simp add: press_left_moves_focus focusedControl_showControlsWithTimer
      controls_def indexOfFocus_def)

theorem left_from_playPause_clamps_at_back_witness:
  "focusedControl (playingSession promptPlayer) = Some PlayPause
   \<and> map_sum id focusedControl
     (handleTVRemoteKeys promptPlayer [press ''left'']
        ((playingSession promptPlayer)\<lparr>focusedControl := Some PlayPause\<rparr>))
     = Inr (Some SeekBackward)
   \<and> map_sum id focusedControl
     (handleTVRemoteKeys promptPlayer [press ''left'', press ''left'']
        ((playingSession promptPlayer)\<lparr>focusedControl := Some PlayPause\<rparr>))
     = Inr (Some Back)
   \<and> map_sum id focusedControl
     (handleTVRemoteKeys promptPlayer [press ''left'', press ''left'', press ''left'']
        ((playingSession promptPlayer)\<lparr>focusedControl := Some PlayPause\<rparr>))
     = Inr (Some Back)"
  using left_from_playPause_clamps_at_back [of promptPlayer "playingSession promptPlayer"]
    focusedControl_playingSession [of promptPlayer]
  by blast

text \<open>
  Claim C10. With no control focused (\<^verbatim>\<open>focusedControl\<close> is \<^verbatim>\<open>null\<close>), a left press
  and a right press each set the focus to \<^verbatim>\<open>back\<close>: \<^verbatim>\<open>indexOf\<close> gives \<open>-1\<close>, and
  both \<^verbatim>\<open>Math.max(0, -2)\<close> and \<^verbatim>\<open>Math.min(3, 0)\<close> are index 0. Neither press throws or
  leaves the focus unset.
\<close>

theorem absent_focus_moves_to_back:
  "map_sum id focusedControl
     (handleTVRemoteKey P (press ''left'') (s\<lparr>focusedControl := None\<rparr>)) = Inr (Some Back)
   \<and> map_sum id focusedControl
     (handleTVRemoteKey P (press ''right'') (s\<lparr>focusedControl := None\<rparr>)) = Inr (Some Back)"
  by (simp add: press_left_moves_focus press_right_moves_focus
      focusedControl_showControlsWithTimer controls_def indexOfFocus_def)

theorem absent_focus_moves_to_back_witness:
  "map_sum id focusedControl
     (handleTVRemoteKey promptPlayer (press ''left'')
        ((playingSession promptPlayer)\<lparr>focusedControl := None\<rparr>)) = Inr (Some Back)
   \<and> map_sum id focusedControl
     (handleTVRemoteKey promptPlayer (press ''right'')
        ((playingSession promptPlayer)\<lparr>focusedControl := None\<rparr>)) = Inr (Some Back)"
  using absent_focus_moves_to_back [of promptPlayer "playingSession promptPlayer"]
  by blast

section \<open>Status events\<close>

text \<open>
  Claim C9. Handling an \<^verbatim>\<open>idle\<close> status event twice in a row leaves the session, and
  so the playback state, as the first handling left it.
\<close>

theorem idle_status_idempotent:
  "status ev = ''idle'' \<Longrightarrow> status ev' = ''idle'' \<Longrightarrow>
   statusChange P ev' (statusChange P ev s) = statusChange P ev s"
  by (simp add: statusChange_def setPlaybackState_def updatePlaybackState_def noUpdates_def)

theorem idle_status_idempotent_witness:
  "status \<lparr>status = ''idle'', statusError = None\<rparr> = ''idle''
   \<and> statusChange promptPlayer \<lparr>status = ''idle'', statusError = None\<rparr>
       (statusChange promptPlayer \<lparr>status = ''idle'', statusError = None\<rparr>
          (playingSession promptPlayer))
     = statusChange promptPlayer \<lparr>status = ''idle'', statusError = None\<rparr>
         (playingSession promptPlayer)
   \<and> isPlaying (playbackState
        (statusChange promptPlayer \<lparr>status = ''idle'', statusError = None\<rparr>
           (playingSession promptPlayer))) = False"
proof -
  have i: "status \<lparr>status = ''idle'', statusError = None\<rparr> = ''idle''" by simp
  have p: "isPlaying (playbackState
        (statusChange promptPlayer \<lparr>status = ''idle'', statusError = None\<rparr>
           (playingSession promptPlayer))) = False"
    by (simp add: statusChange_def setPlaybackState_def updatePlaybackState_def noUpdates_def)
  from i p idle_status_idempotent [OF i i, of promptPlayer "playingSession promptPlayer"]
  show ?thesis by blast
qed

subsection \<open>Readings of the stand-in primitives and of the sample session\<close>

lemma fakePrimitive_readings:
  "player_playing (fakePrimitive ex) = fake_playing"
  "player_currentTime (fakePrimitive ex) = fake_currentTime"
  "player_duration (fakePrimitive ex) = fake_duration"
  "player_status (fakePrimitive ex) = fake_status"
  "configure (fakePrimitive ex) = Inr"
  "exec (fakePrimitive ex) = ex"
  by (simp_all add: fakePrimitive_def)

lemmas promptPlayer_readings = fakePrimitive_readings [of promptExec, folded promptPlayer_def]


lemmas brokenPlayer_readings =
  fakePrimitive_readings [of "\<lambda>c p. Inl (Fault ''player released'')", folded brokenPlayer_def]

lemma playingSession_fields:
  "player (playingSession P) =
     \<lparr>fake_playing = True, fake_currentTime = 50, fake_duration = 100,
      fake_status = ''readyToPlay''\<rparr>"
  "playbackState (playingSession P) =
     \<lparr>isPlaying = True, currentTime = 50, duration = 100, isLoading = False, error = None\<rparr>"
  "timers (playingSession P) = []"
  "issued (playingSession P) = []"
  "now (playingSession P) = 0"
  "seekTimeout (playingSession P) = None"
  "hideControlsTimeout (playingSession P) = None"
  "nextTimerId (playingSession P) = 1"
  "wasPlayingBeforeSeek (playingSession P) = False"
  "focusedControl (playingSession P) = Some PlayPause"
  "props_videoId (playingSession P) = ''v1''"
  "playbackPositions (playingSession P) = Map.empty"
  by (simp_all add: playingSession_def newSession_def)

lemma watchingSession_fields:
  "player (watchingSession P) = player (playingSession P)"
  "playbackState (watchingSession P) = playbackState (playingSession P)"
  "timers (watchingSession P) = [\<lparr>timer_id = 1, due = 3000, action = HideControls\<rparr>]"
  "issued (watchingSession P) = []"
  "now (watchingSession P) = 0"
  "hideControlsTimeout (watchingSession P) = Some 1"
  "nextTimerId (watchingSession P) = 2"
  by (simp_all add: watchingSession_def showControlsWithTimer_def setTimeout_def clearIfSet_def
      playingSession_fields)


section \<open>Mounting and URL validation\<close>

lemma configurePlayer_frame:
  "url (configurePlayer P s) = url s"
  "hlsUrl (configurePlayer P s) = hlsUrl s"
  "props_videoId (configurePlayer P s) = props_videoId s"
  "playbackPositions (configurePlayer P s) = playbackPositions s"
  "focusedControl (configurePlayer P s) = focusedControl s"
  by (simp_all add: configurePlayer_def setPlaybackState_def split: sum.splits)

lemma configurePlayer_player:
  "player (configurePlayer P s) =
     (case configure P (player s) of Inl e \<Rightarrow> player s | Inr p \<Rightarrow> p)"
  by (simp add: configurePlayer_def setPlaybackState_def split: sum.splits)

lemma configurePlayer_playbackState:
  "playbackState (configurePlayer P s) =
     (case configure P (player s) of
        Inl e \<Rightarrow> (playbackState s)\<lparr>isLoading := False,
                    error := Some ''Failed to configure video player''\<rparr>
      | Inr p \<Rightarrow> playbackState s)"
  by (simp add: configurePlayer_def setPlaybackState_def updatePlaybackState_def noUpdates_def
      split: sum.splits)

lemma restoreEffect_empty:
  "playbackPositions s (props_videoId s) = None \<Longrightarrow> restoreEffect s = s"
  by (simp add: restoreEffect_def)

lemma validateUrls_frame:
  "player (validateUrls s) = player s"
  "props_videoId (validateUrls s) = props_videoId s"
  "playbackPositions (validateUrls s) = playbackPositions s"
  "focusedControl (validateUrls s) = focusedControl s"
  by (simp_all add: validateUrls_def setPlaybackState_def)

lemma validateUrls_playbackState:
  "playbackState (validateUrls s) =
     (if url s = '''' \<and> hlsUrl s = ''''
      then (playbackState s)\<lparr>isLoading := False, error := Some ''No valid video URL provided''\<rparr>
      else playbackState s)"
  by (simp add: validateUrls_def setPlaybackState_def updatePlaybackState_def noUpdates_def)

lemma loadingTimeoutEffect_frame:
  "player (loadingTimeoutEffect s) = player s"
  "props_videoId (loadingTimeoutEffect s) = props_videoId s"
  "playbackPositions (loadingTimeoutEffect s) = playbackPositions s"
  "playbackState (loadingTimeoutEffect s) = playbackState s"
  "focusedControl (loadingTimeoutEffect s) = focusedControl s"
  by (simp_all add: loadingTimeoutEffect_def setTimeout_def)

lemma readyEffect_playbackState:
  "playbackState (readyEffect P s) =
     (if player_status P (player s) = ''readyToPlay''
      then (playbackState s)\<lparr>isLoading := False\<rparr>
      else playbackState s)"
  by (simp add: readyEffect_def setPlaybackState_def updatePlaybackState_def noUpdates_def
      setTimeout_def Let_def)

lemma focusedControl_readyEffect:
  "focusedControl (readyEffect P s) = focusedControl s"
  by (simp add: readyEffect_def setPlaybackState_def setTimeout_def Let_def)

lemma newSession_fields:
  "url (newSession P tv vid u h t) = u"
  "hlsUrl (newSession P tv vid u h t) = h"
  "props_videoId (newSession P tv vid u h t) = vid"
  "playbackPositions (newSession P tv vid u h t) = Map.empty"
  "playbackState (newSession P tv vid u h t) = initialPlaybackState"
  "player (newSession P tv vid u h t) = create P (videoSource tv u h)"
  "focusedControl (newSession P tv vid u h t) = Some PlayPause"
  by (simp_all add: newSession_def)

lemma playbackState_mount:
  "playbackState (mount P tv vid u h t) =
     (let s1 = configurePlayer P (newSession P tv vid u h t);
          ps = (if u = '''' \<and> h = ''''
                then (playbackState s1)\<lparr>isLoading := False,
                       error := Some ''No valid video URL provided''\<rparr>
                else playbackState s1)
      in if player_status P (player s1) = ''readyToPlay'' then ps\<lparr>isLoading := False\<rparr> else ps)"
proof -
  let ?s1 = "configurePlayer P (newSession P tv vid u h t)"
  have r: "restoreEffect ?s1 = ?s1"
    by (rule restoreEffect_empty) (simp add: configurePlayer_frame newSession_fields)
  show ?thesis
    unfolding mount_def r
    by (simp add: readyEffect_playbackState loadingTimeoutEffect_frame validateUrls_frame
        validateUrls_playbackState configurePlayer_frame newSession_fields Let_def)
qed

lemma playbackState_mount_no_urls:
  "error (playbackState (mount P tv vid '''' '''' t)) = Some ''No valid video URL provided''
   \<and> isLoading (playbackState (mount P tv vid '''' '''' t)) = False"
  by (simp add: playbackState_mount Let_def)

lemma playbackState_mount_configured:
  "configure P (create P (videoSource tv u h)) = Inr p \<Longrightarrow> u \<noteq> '''' \<or> h \<noteq> '''' \<Longrightarrow>
   playbackState (mount P tv vid u h t) =
     (if player_status P p = ''readyToPlay''
      then initialPlaybackState\<lparr>isLoading := False\<rparr> else initialPlaybackState)"
  by (auto simp add: playbackState_mount Let_def configurePlayer_playbackState
      configurePlayer_player newSession_fields)
lemma configure_promptPlayer:
  "configure promptPlayer (create promptPlayer src) =
     Inr \<lparr>fake_playing = False, fake_currentTime = 0, fake_duration = 0,
           fake_status = ''loading''\<rparr>"
  by (simp add: promptPlayer_def fakePrimitive_def)

lemma player_status_promptPlayer: "player_status promptPlayer p = fake_status p"
  by (simp add: promptPlayer_def fakePrimitive_def)

text \<open>
  Claim C1, as the code has it. The validation effect tests \<^verbatim>\<open>!url && !hlsUrl\<close>: it
  records \<^verbatim>\<open>error = "No valid video URL provided"\<close> and \<^verbatim>\<open>isLoading = false\<close> when both
  URLs are empty, whatever the platform and the primitive. When at least one URL is
  present it leaves the session as it is (the code only logs a warning when one of the two
  is missing): with \<^verbatim>\<open>url = ""\<close>, a non-empty \<^verbatim>\<open>hlsUrl\<close> and a player that could be
  configured, no error is recorded at mount, and \<^verbatim>\<open>isLoading\<close> stays true unless the
  player is already ready to play.
\<close>

theorem url_validation_needs_both_missing:
  "error (playbackState (mount P tv vid '''' '''' t)) = Some ''No valid video URL provided''
   \<and> isLoading (playbackState (mount P tv vid '''' '''' t)) = False
   \<and> (url s \<noteq> '''' \<or> hlsUrl s \<noteq> '''' \<longrightarrow> validateUrls s = s)
   \<and> (h \<noteq> '''' \<and> configure P (create P (videoSource tv '''' h)) = Inr p \<longrightarrow>
        error (playbackState (mount P tv vid '''' h t)) = None
        \<and> isLoading (playbackState (mount P tv vid '''' h t))
            = (player_status P p \<noteq> ''readyToPlay''))"
proof -
  have "url s \<noteq> '''' \<or> hlsUrl s \<noteq> '''' \<longrightarrow> validateUrls s = s"
    by (auto simp: validateUrls_def)
  moreover have "h \<noteq> '''' \<and> configure P (create P (videoSource tv '''' h)) = Inr p \<longrightarrow>
        error (playbackState (mount P tv vid '''' h t)) = None
        \<and> isLoading (playbackState (mount P tv vid '''' h t))
            = (player_status P p \<noteq> ''readyToPlay'')"
    by (simp add: playbackState_mount_configured initialPlaybackState_def)
  ultimately show ?thesis
    using playbackState_mount_no_urls [of P tv vid t] by blast
qed

theorem url_validation_needs_both_missing_witness:
  "''https://x/hls.m3u8'' \<noteq> ''''
   \<and> hlsUrl (newSession promptPlayer False ''v1'' '''' ''https://x/hls.m3u8'' 0) \<noteq> ''''
   \<and> configure promptPlayer (create promptPlayer (videoSource False '''' ''https://x/hls.m3u8''))
       = Inr \<lparr>fake_playing = False, fake_currentTime = 0, fake_duration = 0,
               fake_status = ''loading''\<rparr>
   \<and> error (playbackState (mount promptPlayer False ''v1'' '''' '''' 0))
       = Some ''No valid video URL provided''
   \<and> isLoading (playbackState (mount promptPlayer False ''v1'' '''' '''' 0)) = False
   \<and> validateUrls (newSession promptPlayer False ''v1'' '''' ''https://x/hls.m3u8'' 0)
       = newSession promptPlayer False ''v1'' '''' ''https://x/hls.m3u8'' 0
   \<and> error (playbackState (mount promptPlayer False ''v1'' '''' ''https://x/hls.m3u8'' 0)) = None
   \<and> isLoading (playbackState (mount promptPlayer False ''v1'' '''' ''https://x/hls.m3u8'' 0))
       = True"
  using url_validation_needs_both_missing [of promptPlayer False "''v1''" 0
      "newSession promptPlayer False ''v1'' '''' ''https://x/hls.m3u8'' 0" "''https://x/hls.m3u8''"
      "\<lparr>fake_playing = False, fake_currentTime = 0, fake_duration = 0,
               fake_status = ''loading''\<rparr>"]
  by (auto simp add: configure_promptPlayer player_status_promptPlayer newSession_fields)

text \<open>
  The claim as the spec states it fails: on a non-TV platform, with \<^verbatim>\<open>url = ""\<close> and
  \<^verbatim>\<open>hlsUrl = "https://x/hls.m3u8"\<close>, the mounted session has no error and is still
  loading.
\<close>

theorem url_validation_one_missing_counterexample:
  "error (playbackState (mount promptPlayer False ''v1'' '''' ''https://x/hls.m3u8'' 0))
     \<noteq> Some ''No valid video URL provided''
   \<and> isLoading (playbackState (mount promptPlayer False ''v1'' '''' ''https://x/hls.m3u8'' 0))
     \<noteq> False"
  by (simp add: playbackState_mount_configured [OF configure_promptPlayer]
      player_status_promptPlayer initialPlaybackState_def)
section \<open>Play and pause\<close>

lemma handlePlayPause_ok:
  "exec P (if player_playing P (player s) then Pause else Play) (player s) = Inr p \<Longrightarrow>
   handlePlayPause P s =
     Inr (s\<lparr>player := p,
           issued := issued s @ [if player_playing P (player s) then Pause else Play],
           playbackState := (playbackState s)\<lparr>isPlaying := \<not> player_playing P p\<rparr>\<rparr>)"
  by (simp add: handlePlayPause_def issue_def setPlaybackState_def updatePlaybackState_def
      noUpdates_def)

lemma handlePlayPause_thrown:
  "exec P (if player_playing P (player s) then Pause else Play) (player s) = Inl e \<Longrightarrow>
   handlePlayPause P s =
     Inr (s\<lparr>issued := issued s @ [if player_playing P (player s) then Pause else Play],
           playbackState :=
             (playbackState s)\<lparr>error := Some ''Failed to control video playback''\<rparr>\<rparr>)"
  by (simp add: handlePlayPause_def issue_def setPlaybackState_def updatePlaybackState_def
      noUpdates_def)



text \<open>
  The condition on the reading is needed. \<^verbatim>\<open>handlePlayPause\<close> records the negation of
  the reading taken after the call (\<open>handlePlayPause_ok\<close>), so with a stand-in that
  applies \<^verbatim>\<open>pause()\<close> before the call returns, a playing player is paused and
  \<^verbatim>\<open>isPlaying\<close> is set to \<^verbatim>\<open>true\<close>. Nothing in the repository fixes when the primitive
  updates its reading.
\<close>

lemma handlePlayPause_prompt_primitive:
  "player_playing promptPlayer (player (playingSession promptPlayer)) = True
   \<and> map_sum id (\<lambda>s'. isPlaying (playbackState s'))
       (handlePlayPause promptPlayer (playingSession promptPlayer)) = Inr True
   \<and> map_sum id (\<lambda>s'. player_playing promptPlayer (player s'))
       (handlePlayPause promptPlayer (playingSession promptPlayer)) = Inr False"
  by (simp add: handlePlayPause_def issue_def setPlaybackState_def updatePlaybackState_def
      noUpdates_def promptPlayer_readings playingSession_fields)

section \<open>Seeking\<close>

lemma exec_outcome: "accepts P c \<Longrightarrow> exec P c p = Inr (outcome P c p)"
proof -
  assume "accepts P c"
  then obtain p' where "exec P c p = Inr p'" unfolding accepts_def by blast
  then show ?thesis by (simp add: outcome_def)
qed

lemma issue_accepted:
  "accepts P c \<Longrightarrow>
   issue P c s = (None, s\<lparr>player := outcome P c (player s), issued := issued s @ [c]\<rparr>)"
  by (simp add: issue_def exec_outcome)

lemma issue_thrown:
  "exec P c (player s) = Inl e \<Longrightarrow> issue P c s = (Some e, s\<lparr>issued := issued s @ [c]\<rparr>)"
  by (simp add: issue_def)

lemma clearIfSet_eq: "clearIfSet r s = s\<lparr>timers := cleared r (timers s)\<rparr>"
  by (simp add: clearIfSet_def clearTimeout_def cleared_def split: option.splits)

lemma handleSeek_idle:
  "\<not> player_playing P (player s) \<Longrightarrow>
   handleSeek P pos s =
     Inr (s\<lparr>timers := enqueue \<lparr>timer_id = nextTimerId s, due = now s + 300,
                                action = SeekCommit pos\<rparr> (cleared (seekTimeout s) (timers s)),
           playbackState := (playbackState s)\<lparr>currentTime := pos\<rparr>,
           nextTimerId := Suc (nextTimerId s),
           seekTimeout := Some (nextTimerId s)\<rparr>)"
  by (simp add: handleSeek_def clearIfSet_eq setTimeout_def setPlaybackState_def
      updatePlaybackState_def noUpdates_def)

lemma handleSeek_playing:
  "player_playing P (player s) \<Longrightarrow> accepts P Pause \<Longrightarrow>
   handleSeek P pos s =
     Inr (s\<lparr>timers := enqueue \<lparr>timer_id = nextTimerId s, due = now s + 300,
                                action = SeekCommit pos\<rparr> (cleared (seekTimeout s) (timers s)),
           player := outcome P Pause (player s),
           issued := issued s @ [Pause],
           playbackState := (playbackState s)\<lparr>isPlaying := False, currentTime := pos\<rparr>,
           nextTimerId := Suc (nextTimerId s),
           seekTimeout := Some (nextTimerId s)\<rparr>)"
  by (simp add: handleSeek_def clearIfSet_eq setTimeout_def setPlaybackState_def
      updatePlaybackState_def noUpdates_def issue_accepted)

lemma handleSeek_thrown:
  "player_playing P (player s) \<Longrightarrow> exec P Pause (player s) = Inl e \<Longrightarrow>
   handleSeek P pos s =
     Inr (s\<lparr>timers := cleared (seekTimeout s) (timers s),
           issued := issued s @ [Pause],
           playbackState := (playbackState s)\<lparr>error := Some ''Failed to seek in video''\<rparr>\<rparr>)"
  by (simp add: handleSeek_def clearIfSet_eq setTimeout_def setPlaybackState_def
      updatePlaybackState_def noUpdates_def issue_thrown)

lemma handleSeekWithPause_idle:
  "\<not> player_playing P (player s) \<Longrightarrow>
   handleSeekWithPause P pos s =
     Inr (s\<lparr>wasPlayingBeforeSeek := False,
           timers := enqueue \<lparr>timer_id = nextTimerId s, due = now s + 100,
                                action = SeekResumeCommit pos\<rparr>
                       (cleared (seekTimeout s) (timers s)),
           playbackState := (playbackState s)\<lparr>currentTime := pos\<rparr>,
           nextTimerId := Suc (nextTimerId s),
           seekTimeout := Some (nextTimerId s)\<rparr>)"
  by (simp add: handleSeekWithPause_def clearIfSet_eq setTimeout_def setPlaybackState_def
      updatePlaybackState_def noUpdates_def)

lemma handleSeekWithPause_playing:
  "player_playing P (player s) \<Longrightarrow> accepts P Pause \<Longrightarrow>
   handleSeekWithPause P pos s =
     Inr (s\<lparr>wasPlayingBeforeSeek := True,
           timers := enqueue \<lparr>timer_id = nextTimerId s, due = now s + 100,
                                action = SeekResumeCommit pos\<rparr>
                       (cleared (seekTimeout s) (timers s)),
           player := outcome P Pause (player s),
           issued := issued s @ [Pause],
           playbackState := (playbackState s)\<lparr>isPlaying := False, currentTime := pos\<rparr>,
           nextTimerId := Suc (nextTimerId s),
           seekTimeout := Some (nextTimerId s)\<rparr>)"
  by (simp add: handleSeekWithPause_def clearIfSet_eq setTimeout_def setPlaybackState_def
      updatePlaybackState_def noUpdates_def issue_accepted)

lemma handleSeekWithPause_thrown:
  "player_playing P (player s) \<Longrightarrow> exec P Pause (player s) = Inl e \<Longrightarrow>
   handleSeekWithPause P pos s = Inl e"
  by (simp add: handleSeekWithPause_def issue_thrown)

lemma fire_SeekCommit_accepted:
  "accepts P (SetCurrentTime pos) \<Longrightarrow>
   fire P (SeekCommit pos) s =
     Inr (s\<lparr>player := outcome P (SetCurrentTime pos) (player s),
           issued := issued s @ [SetCurrentTime pos],
           playbackPositions :=
             savePlaybackPosition (props_videoId s) pos (now s) (playbackPositions s)\<rparr>)"
  by (simp add: issue_accepted savePosition_def)

lemma fire_SeekCommit_thrown:
  "exec P (SetCurrentTime pos) (player s) = Inl e \<Longrightarrow>
   fire P (SeekCommit pos) s =
     Inr (s\<lparr>issued := issued s @ [SetCurrentTime pos],
           playbackState := (playbackState s)\<lparr>error := Some ''Failed to seek to position''\<rparr>\<rparr>)"
  by (simp add: issue_thrown setPlaybackState_def updatePlaybackState_def noUpdates_def)

lemma fire_SeekResumeCommit_accepted:
  "accepts P (SetCurrentTime pos) \<Longrightarrow>
   fire P (SeekResumeCommit pos) s =
     Inr (s\<lparr>player := outcome P (SetCurrentTime pos) (player s),
           issued := issued s @ [SetCurrentTime pos],
           playbackPositions :=
             savePlaybackPosition (props_videoId s) pos (now s) (playbackPositions s),
           timers := (if wasPlayingBeforeSeek s
                      then enqueue \<lparr>timer_id = nextTimerId s, due = now s + 300,
                                      action = ResumePlayback\<rparr> (timers s)
                      else timers s),
           nextTimerId := (if wasPlayingBeforeSeek s then Suc (nextTimerId s)
                           else nextTimerId s)\<rparr>)"
  by (simp add: issue_accepted savePosition_def setTimeout_def Let_def)

lemma fire_SeekResumeCommit_thrown:
  "exec P (SetCurrentTime pos) (player s) = Inl e \<Longrightarrow>
   fire P (SeekResumeCommit pos) s = Inl e"
  by (simp add: issue_thrown)

lemma fire_ResumePlayback_accepted:
  "accepts P Play \<Longrightarrow>
   fire P ResumePlayback s =
     Inr (s\<lparr>player := outcome P Play (player s),
           issued := issued s @ [Play],
           playbackState := (playbackState s)\<lparr>isPlaying := True\<rparr>\<rparr>)"
  by (simp add: issue_accepted setPlaybackState_def updatePlaybackState_def noUpdates_def)

lemma fire_ResumePlayback_thrown:
  "exec P Play (player s) = Inl e \<Longrightarrow> fire P ResumePlayback s = Inl e"
  by (simp add: issue_thrown)

lemma showControlsWithTimer_eq:
  "showControlsWithTimer s =
     s\<lparr>showControls := True,
       timers := enqueue \<lparr>timer_id = nextTimerId s, due = now s + 3000, action = HideControls\<rparr>
                   (cleared (hideControlsTimeout s) (timers s)),
       nextTimerId := Suc (nextTimerId s),
       hideControlsTimeout := Some (nextTimerId s)\<rparr>"
  by (simp add: showControlsWithTimer_def clearIfSet_eq setTimeout_def)

lemma runUntil_Nil:
  "timers s = [] \<Longrightarrow> runUntil P T s = Inr (s\<lparr>now := max (now s) T\<rparr>)"
  by (subst runUntil.simps) simp

lemma runUntil_wait:
  "timers s = t # ts \<Longrightarrow> T < due t \<Longrightarrow> runUntil P T s = Inr (s\<lparr>now := max (now s) T\<rparr>)"
  by (subst runUntil.simps) simp

lemma runUntil_fire:
  "timers s = t # ts \<Longrightarrow> due t \<le> T \<Longrightarrow>
   runUntil P T s =
     thenRun (fire P (action t) (s\<lparr>timers := ts, now := max (now s) (due t)\<rparr>)) (runUntil P T)"
  by (subst runUntil.simps) (simp add: thenRun_def split: sum.splits)

lemma handleRetry_catches:
  "\<exists>s'. handleRetry P s = Inr s'
     \<and> (\<forall>e. exec P (Replace (if videoSource (isTV s) (url s) (hlsUrl s) = hlsUrl s
                                then url s else hlsUrl s)) (player s) = Inl e \<longrightarrow>
            error (playbackState s') = Some ''Failed to retry video playback''
            \<and> isLoading (playbackState s') = False)"
  by (auto simp add: handleRetry_def Let_def issue_def clearIfSet_eq setPlaybackState_def
      updatePlaybackState_def noUpdates_def split: sum.splits)

section \<open>Faults of the primitive\<close>

lemma handlePlayPause_catches:
  "\<exists>s'. handlePlayPause P s = Inr s'
     \<and> (\<forall>e. exec P (if player_playing P (player s) then Pause else Play) (player s) = Inl e
            \<longrightarrow> error (playbackState s') = Some ''Failed to control video playback'')"
  by (cases "exec P (if player_playing P (player s) then Pause else Play) (player s)")
     (simp_all add: handlePlayPause_ok handlePlayPause_thrown)

lemma handleSeek_catches:
  "\<exists>s'. handleSeek P pos s = Inr s'
     \<and> (\<forall>e. player_playing P (player s) \<and> exec P Pause (player s) = Inl e
            \<longrightarrow> error (playbackState s') = Some ''Failed to seek in video'')"
  by (auto simp add: handleSeek_def Let_def issue_def clearIfSet_eq setPlaybackState_def
      setTimeout_def updatePlaybackState_def noUpdates_def split: sum.splits)

lemma fire_SeekCommit_catches:
  "\<exists>s'. fire P (SeekCommit pos) s = Inr s'
     \<and> (\<forall>e. exec P (SetCurrentTime pos) (player s) = Inl e
            \<longrightarrow> error (playbackState s') = Some ''Failed to seek to position'')"
  by (auto simp add: issue_def setPlaybackState_def updatePlaybackState_def noUpdates_def
      savePosition_def split: sum.splits)

lemma handleSeekForward_thrown:
  "player_playing P (player s) \<Longrightarrow> exec P Pause (player s) = Inl e \<Longrightarrow>
   handleTVRemoteKey P (press ''select'') (s\<lparr>focusedControl := Some SeekForward\<rparr>) = Inl e"
  by (simp add: handleTVRemoteKey_def press_def andThen_def handleSeekForward_def
      handleSeekWithPause_thrown)

text \<open>
  Claim C2 fails on the seek-with-resume path. \<^verbatim>\<open>handlePlayPause\<close>, \<^verbatim>\<open>handleSeek\<close> with
  its commit, and \<^verbatim>\<open>handleRetry\<close> wrap the primitive call in \<^verbatim>\<open>try/catch\<close> and record an
  error string (\<open>handlePlayPause_catches\<close>, \<open>handleSeek_catches\<close>,
  \<open>fire_SeekCommit_catches\<close>, \<open>handleRetry_catches\<close>). \<^verbatim>\<open>handleSeekWithPause\<close> has no
  \<^verbatim>\<open>try/catch\<close>: with a primitive that throws, the exception leaves the handler when the
  player is playing (also through the remote's select on \<^verbatim>\<open>seekForward\<close>), it leaves
  the commit callback and the resume callback, and no error is recorded; when the player
  is paused the request is accepted and the exception leaves the timer callback 100ms
  later. The plain seek on the same input records \<^verbatim>\<open>"Failed to seek in video"\<close>.
\<close>

theorem seek_with_resume_fault_escapes:
  "handleSeekWithPause brokenPlayer 60 (playingSession brokenPlayer)
     = Inl (Fault ''player released'')
   \<and> handleTVRemoteKey brokenPlayer (press ''select'')
       ((playingSession brokenPlayer)\<lparr>focusedControl := Some SeekForward\<rparr>)
     = Inl (Fault ''player released'')
   \<and> fire brokenPlayer (SeekResumeCommit 60) (playingSession brokenPlayer)
     = Inl (Fault ''player released'')
   \<and> fire brokenPlayer ResumePlayback (playingSession brokenPlayer)
     = Inl (Fault ''player released'')
   \<and> thenRun (handleSeekWithPause brokenPlayer 60
         ((playingSession brokenPlayer)\<lparr>player :=
             \<lparr>fake_playing = False, fake_currentTime = 50, fake_duration = 100,
              fake_status = ''readyToPlay''\<rparr>\<rparr>))
       (runUntil brokenPlayer 100)
     = Inl (Fault ''player released'')
   \<and> map_sum id (\<lambda>s'. error (playbackState s'))
       (handleSeek brokenPlayer 60 (playingSession brokenPlayer))
     = Inr (Some ''Failed to seek in video'')"
proof -
  let ?S = "playingSession brokenPlayer"
  let ?e = "Fault ''player released''"
  have x: "\<And>c p. exec brokenPlayer c p = Inl ?e"
    by (simp add: brokenPlayer_readings)
  have pl: "player_playing brokenPlayer (player ?S)"
    by (simp add: brokenPlayer_readings playingSession_fields)
  have 1: "handleSeekWithPause brokenPlayer 60 ?S = Inl ?e"
    by (rule handleSeekWithPause_thrown [OF pl x])
  have 2: "handleTVRemoteKey brokenPlayer (press ''select'')
       (?S\<lparr>focusedControl := Some SeekForward\<rparr>) = Inl ?e"
    by (rule handleSeekForward_thrown [OF pl x])
  have 3: "fire brokenPlayer (SeekResumeCommit 60) ?S = Inl ?e"
    by (rule fire_SeekResumeCommit_thrown [OF x])
  have 4: "fire brokenPlayer ResumePlayback ?S = Inl ?e"
    by (rule fire_ResumePlayback_thrown [OF x])
  have 5: "thenRun (handleSeekWithPause brokenPlayer 60
         (?S\<lparr>player := \<lparr>fake_playing = False, fake_currentTime = 50, fake_duration = 100,
              fake_status = ''readyToPlay''\<rparr>\<rparr>))
       (runUntil brokenPlayer 100) = Inl ?e"
    by (simp add: handleSeekWithPause_idle brokenPlayer_readings playingSession_fields
        thenRun_def cleared_def runUntil_fire issue_def)
  have 6: "map_sum id (\<lambda>s'. error (playbackState s')) (handleSeek brokenPlayer 60 ?S)
     = Inr (Some ''Failed to seek in video'')"
    by (simp add: handleSeek_thrown [OF pl x])
  from 1 2 3 4 5 6 show ?thesis by blast
qed

section \<open>Timers that do not matter\<close>

lemma undisturbed_refl: "undisturbed s s"
  by (simp add: undisturbed_def)

lemma undisturbed_trans: "undisturbed s s1 \<Longrightarrow> undisturbed s1 s2 \<Longrightarrow> undisturbed s s2"
  by (simp add: undisturbed_def)

lemma undisturbed_clock: "undisturbed s (s\<lparr>timers := ts, now := t\<rparr>)"
  by (simp add: undisturbed_def)

lemma fire_harmless:
  "harmless c \<Longrightarrow>
   \<exists>s'. fire P c s = Inr s' \<and> undisturbed s s' \<and> timers s' = timers s \<and> now s' = now s"
  by (cases c)
     (simp_all add: undisturbed_def setPlaybackState_def updatePlaybackState_def noUpdates_def)

lemma quiet_simps:
  "quiet []"
  "quiet (t # ts) = (harmless (action t) \<and> quiet ts)"
  "quiet (xs @ ys) = (quiet xs \<and> quiet ys)"
  by (simp_all add: quiet_def)

lemma quiet_filter: "quiet ts \<Longrightarrow> quiet (filter Q ts)"
  by (induction ts) (simp_all add: quiet_simps)

lemma quiet_cleared: "quiet ts \<Longrightarrow> quiet (cleared r ts)"
  by (simp add: cleared_def quiet_filter split: option.splits)

lemma quiet_enqueue: "harmless (action t) \<Longrightarrow> quiet ts \<Longrightarrow> quiet (enqueue t ts)"
  by (induction ts) (simp_all add: quiet_simps)

lemma run_quiet:
  "quiet (timers s) \<Longrightarrow>
   \<exists>s'. runUntil P T s = Inr s' \<and> undisturbed s s' \<and> quiet (timers s')"
proof (induction ts \<equiv> "timers s" arbitrary: s)
  case Nil
  then show ?case
    by (simp add: runUntil_Nil undisturbed_def quiet_simps)
next
  case (Cons t ts)
  from Cons.hyps(2) [symmetric] Cons.prems have h: "harmless (action t)" and q: "quiet ts"
    by (simp_all add: quiet_simps)
  show ?case
  proof (cases "due t \<le> T")
    case False
    with Cons.hyps(2) [symmetric] Cons.prems show ?thesis
      by (simp add: runUntil_wait undisturbed_def)
  next
    case True
    let ?x = "s\<lparr>timers := ts, now := max (now s) (due t)\<rparr>"
    from fire_harmless [OF h, of P ?x] obtain s1 where
      f: "fire P (action t) ?x = Inr s1" and u: "undisturbed ?x s1" and t1: "timers s1 = ts"
      by auto
    from Cons.hyps(1) [of s1] t1 q obtain s' where
      r: "runUntil P T s1 = Inr s'" and u': "undisturbed s1 s'" and q': "quiet (timers s')"
      by auto
    from Cons.hyps(2) [symmetric] True f r have "runUntil P T s = Inr s'"
      by (simp add: runUntil_fire thenRun_def)
    moreover from undisturbed_clock u u' have "undisturbed s s'"
      by (blast intro: undisturbed_trans)
    ultimately show ?thesis using q' by blast
  qed
qed

lemma enqueue_eq:
  "enqueue t xs =
     takeWhile (\<lambda>x. due x \<le> due t) xs @ t # dropWhile (\<lambda>x. due x \<le> due t) xs"
  by (induction xs) simp_all

lemma quiet_takeWhile: "quiet ts \<Longrightarrow> quiet (takeWhile Q ts)"
  by (induction ts) (simp_all add: quiet_simps)

lemma quiet_dropWhile: "quiet ts \<Longrightarrow> quiet (dropWhile Q ts)"
  by (induction ts) (simp_all add: quiet_simps)

lemma enqueue_behind:
  "\<forall>t \<in> set pre. due t \<le> due h \<Longrightarrow> due c \<le> due h \<Longrightarrow>
   enqueue h (pre @ c # post) = pre @ c # enqueue h post"
  by (induction pre) simp_all

lemma cleared_Nil: "cleared r [] = []"
  by (simp add: cleared_def split: option.splits)

lemma cleared_keep: "r \<noteq> Some (timer_id t) \<Longrightarrow> cleared r (t # ts) = t # cleared r ts"
  by (auto simp add: cleared_def split: option.splits)

lemma cleared_append: "cleared r (xs @ ys) = cleared r xs @ cleared r ys"
  by (simp add: cleared_def split: option.splits)

lemma cleared_drop: "cleared (Some (timer_id t)) (t # ts) = cleared (Some (timer_id t)) ts"
  by (simp add: cleared_def)

lemma set_cleared: "set (cleared r ts) \<subseteq> set ts"
  by (auto simp add: cleared_def split: option.splits)

lemma run_before:
  assumes "timers s = pre @ c # post" and "quiet pre" and "T < due c"
  shows "\<exists>s' pre'. runUntil P T s = Inr s' \<and> undisturbed s s'
     \<and> timers s' = pre' @ c # post \<and> quiet pre' \<and> now s' = max (now s) T"
  using assms
proof (induction pre arbitrary: s)
  case Nil
  then have "runUntil P T s = Inr (s\<lparr>now := max (now s) T\<rparr>)"
    by (simp add: runUntil_wait)
  moreover have "undisturbed s (s\<lparr>now := max (now s) T\<rparr>)"
    by (simp add: undisturbed_def)
  moreover from Nil have "timers (s\<lparr>now := max (now s) T\<rparr>) = [] @ c # post \<and> quiet []"
    by (simp add: quiet_simps)
  ultimately show ?case by fastforce
next
  case (Cons x pre)
  from Cons.prems have h: "harmless (action x)" and q: "quiet pre"
    by (simp_all add: quiet_simps)
  show ?case
  proof (cases "due x \<le> T")
    case False
    with Cons.prems have "runUntil P T s = Inr (s\<lparr>now := max (now s) T\<rparr>)"
      by (simp add: runUntil_wait)
    moreover have "undisturbed s (s\<lparr>now := max (now s) T\<rparr>)"
      by (simp add: undisturbed_def)
    moreover from Cons.prems have
      "timers (s\<lparr>now := max (now s) T\<rparr>) = (x # pre) @ c # post \<and> quiet (x # pre)"
      by simp
    ultimately show ?thesis by fastforce
  next
    case True
    let ?x = "s\<lparr>timers := pre @ c # post, now := max (now s) (due x)\<rparr>"
    from fire_harmless [OF h, of P ?x] obtain s1 where
      f: "fire P (action x) ?x = Inr s1" and u: "undisturbed ?x s1"
      and t1: "timers s1 = pre @ c # post" and n1: "now s1 = max (now s) (due x)"
      by auto
    from Cons.IH [OF t1 q Cons.prems(3)] obtain s' pre' where
      r: "runUntil P T s1 = Inr s'" and u': "undisturbed s1 s'"
      and t': "timers s' = pre' @ c # post" and q': "quiet pre'"
      and n': "now s' = max (now s1) T"
      by auto
    from Cons.prems(1) True f r have "runUntil P T s = Inr s'"
      by (simp add: runUntil_fire thenRun_def)
    moreover from undisturbed_clock u u' have "undisturbed s s'"
      by (blast intro: undisturbed_trans)
    moreover from n' n1 True have "now s' = max (now s) T" by simp
    ultimately show ?thesis using t' q' by blast
  qed
qed

lemma run_reach:
  assumes "timers s = pre @ c # post" and "quiet pre" and "\<forall>t \<in> set pre. due t \<le> due c"
    and "now s \<le> due c" and "due c \<le> T"
  shows "\<exists>s1. runUntil P T s = thenRun (fire P (action c) s1) (runUntil P T)
     \<and> undisturbed s s1 \<and> timers s1 = post \<and> now s1 = due c"
  using assms
proof (induction pre arbitrary: s)
  case Nil
  let ?x = "s\<lparr>timers := post, now := max (now s) (due c)\<rparr>"
  from Nil have "runUntil P T s = thenRun (fire P (action c) ?x) (runUntil P T)"
    by (simp add: runUntil_fire)
  moreover have "undisturbed s ?x" by (rule undisturbed_clock)
  moreover from Nil have "timers ?x = post \<and> now ?x = due c" by simp
  ultimately show ?case by blast
next
  case (Cons x pre)
  from Cons.prems have h: "harmless (action x)" and q: "quiet pre"
    and dx: "due x \<le> due c" and ds: "\<forall>t \<in> set pre. due t \<le> due c"
    by (simp_all add: quiet_simps)
  let ?x = "s\<lparr>timers := pre @ c # post, now := max (now s) (due x)\<rparr>"
  from fire_harmless [OF h, of P ?x] obtain s1 where
    f: "fire P (action x) ?x = Inr s1" and u: "undisturbed ?x s1"
    and t1: "timers s1 = pre @ c # post" and n1: "now s1 = max (now s) (due x)"
    by auto
  from n1 dx Cons.prems(4) have b: "now s1 \<le> due c" by simp
  from Cons.IH [OF t1 q ds b Cons.prems(5)] obtain s2 where
    r: "runUntil P T s1 = thenRun (fire P (action c) s2) (runUntil P T)"
    and u': "undisturbed s1 s2" and t2: "timers s2 = post" and n2: "now s2 = due c"
    by auto
  from dx Cons.prems(5) have "due x \<le> T" by simp
  with Cons.prems(1) f r have
    "runUntil P T s = thenRun (fire P (action c) s2) (runUntil P T)"
    by (simp add: runUntil_fire thenRun_def)
  moreover from undisturbed_clock u u' have "undisturbed s s2"
    by (blast intro: undisturbed_trans)
  ultimately show ?case using t2 n2 by blast
qed

lemma queue_after_seek:
  assumes "quiet ts"
  shows "\<exists>pre post. enqueue c ts = pre @ c # post \<and> quiet pre \<and> quiet post
     \<and> (\<forall>t \<in> set pre. due t \<le> due c)"
proof -
  let ?pre = "takeWhile (\<lambda>x. due x \<le> due c) ts"
  let ?post = "dropWhile (\<lambda>x. due x \<le> due c) ts"
  have "enqueue c ts = ?pre @ c # ?post" by (rule enqueue_eq)
  moreover from assms have "quiet ?pre" and "quiet ?post"
    by (simp_all add: quiet_takeWhile quiet_dropWhile)
  moreover have "\<forall>t \<in> set ?pre. due t \<le> due c"
    by (auto dest: set_takeWhileD)
  ultimately show ?thesis by blast
qed

lemma queue_after_seek_and_show:
  assumes "quiet ts" and "r \<noteq> Some (timer_id c)" and "due c \<le> due h"
    and "harmless (action h)"
  shows "\<exists>pre post. enqueue h (cleared r (enqueue c ts)) = pre @ c # post
     \<and> quiet pre \<and> quiet post \<and> (\<forall>t \<in> set pre. due t \<le> due c)"
proof -
  from queue_after_seek [OF assms(1), of c] obtain pre post where
    e: "enqueue c ts = pre @ c # post" and qp: "quiet pre" and qq: "quiet post"
    and d: "\<forall>t \<in> set pre. due t \<le> due c"
    by blast
  from assms(2) have c: "cleared r (pre @ c # post) = cleared r pre @ c # cleared r post"
    by (simp add: cleared_append cleared_keep)
  from d set_cleared [of r pre] have d': "\<forall>t \<in> set (cleared r pre). due t \<le> due c"
    by blast
  with assms(3) have dh: "\<forall>t \<in> set (cleared r pre). due t \<le> due h"
    by fastforce
  from dh assms(3) have
    "enqueue h (cleared r pre @ c # cleared r post) = cleared r pre @ c # enqueue h (cleared r post)"
    by (rule enqueue_behind)
  with e c have
    "enqueue h (cleared r (enqueue c ts)) = cleared r pre @ c # enqueue h (cleared r post)"
    by simp
  moreover from qp have "quiet (cleared r pre)" by (rule quiet_cleared)
  moreover from assms(4) qq have "quiet (enqueue h (cleared r post))"
    by (simp add: quiet_enqueue quiet_cleared)
  ultimately show ?thesis using d' by blast
qed

lemma fire_SeekCommit_issued:
  "\<exists>s'. fire P (SeekCommit pos) s = Inr s'
     \<and> issued s' = issued s @ [SetCurrentTime pos]
     \<and> timers s' = timers s \<and> now s' = now s
     \<and> isPlaying (playbackState s') = isPlaying (playbackState s)"
  by (auto simp add: issue_def setPlaybackState_def savePosition_def updatePlaybackState_def
      noUpdates_def split: sum.splits)

lemma run_commit:
  assumes "timers s = pre @ c # post" and "action c = SeekCommit pos"
    and "quiet pre" and "quiet post" and "\<forall>t \<in> set pre. due t \<le> due c"
    and "now s \<le> due c"
  shows "\<exists>s'. runUntil P T s = Inr s'
     \<and> issued s' = issued s @ (if due c \<le> T then [SetCurrentTime pos] else [])
     \<and> isPlaying (playbackState s') = isPlaying (playbackState s)
     \<and> (due c \<le> T \<longrightarrow> quiet (timers s'))"
proof (cases "due c \<le> T")
  case False
  with run_before [OF assms(1) assms(3), of T P] obtain s' where
    "runUntil P T s = Inr s'" and "undisturbed s s'"
    by auto
  with False show ?thesis by (auto simp add: undisturbed_def)
next
  case True
  from run_reach [OF assms(1) assms(3) assms(5) assms(6) True, of P] obtain s1 where
    r: "runUntil P T s = thenRun (fire P (action c) s1) (runUntil P T)"
    and u: "undisturbed s s1" and t1: "timers s1 = post"
    by auto
  from fire_SeekCommit_issued [of P pos s1] obtain s2 where
    f: "fire P (SeekCommit pos) s1 = Inr s2"
    and i2: "issued s2 = issued s1 @ [SetCurrentTime pos]"
    and t2: "timers s2 = timers s1"
    and p2: "isPlaying (playbackState s2) = isPlaying (playbackState s1)"
    by auto
  from t1 t2 assms(4) have "quiet (timers s2)" by simp
  from run_quiet [OF this, of P T] obtain s' where
    r': "runUntil P T s2 = Inr s'" and u': "undisturbed s2 s'" and q': "quiet (timers s')"
    by auto
  from r f r' assms(2) have "runUntil P T s = Inr s'"
    by (simp add: thenRun_def)
  with True u i2 p2 u' q' show ?thesis by (auto simp add: undisturbed_def)
qed

lemma run_resume:
  assumes "timers s = pre @ r # post" and "action r = ResumePlayback" and "accepts P Play"
    and "quiet pre" and "quiet post" and "\<forall>t \<in> set pre. due t \<le> due r"
    and "now s \<le> due r"
  shows "\<exists>s'. runUntil P T s = Inr s'
     \<and> issued s' = issued s @ (if due r \<le> T then [Play] else [])
     \<and> isPlaying (playbackState s') = (if due r \<le> T then True else isPlaying (playbackState s))"
proof (cases "due r \<le> T")
  case False
  with run_before [OF assms(1) assms(4), of T P] obtain s' where
    "runUntil P T s = Inr s'" and "undisturbed s s'"
    by auto
  with False show ?thesis by (auto simp add: undisturbed_def)
next
  case True
  from run_reach [OF assms(1) assms(4) assms(6) assms(7) True, of P] obtain s1 where
    r: "runUntil P T s = thenRun (fire P (action r) s1) (runUntil P T)"
    and u: "undisturbed s s1" and t1: "timers s1 = post"
    by auto
  let ?s2 = "s1\<lparr>player := outcome P Play (player s1), issued := issued s1 @ [Play],
               playbackState := (playbackState s1)\<lparr>isPlaying := True\<rparr>\<rparr>"
  have f: "fire P ResumePlayback s1 = Inr ?s2"
    by (rule fire_ResumePlayback_accepted [OF assms(3)])
  from t1 assms(5) have "quiet (timers ?s2)" by simp
  from run_quiet [OF this, of P T] obtain s' where
    r': "runUntil P T ?s2 = Inr s'" and u': "undisturbed ?s2 s'"
    by auto
  from r f r' assms(2) have "runUntil P T s = Inr s'"
    by (simp add: thenRun_def)
  with True u u' show ?thesis by (auto simp add: undisturbed_def)
qed

lemma run_resume_commit:
  assumes "timers s = pre @ c # post" and "action c = SeekResumeCommit pos"
    and "accepts P (SetCurrentTime pos)" and "accepts P Play"
    and "quiet pre" and "quiet post" and "\<forall>t \<in> set pre. due t \<le> due c"
    and "now s \<le> due c"
  shows "\<exists>s'. runUntil P T s = Inr s'
     \<and> issued s' = issued s @ (if due c \<le> T then [SetCurrentTime pos] else [])
          @ (if due c + 300 \<le> T \<and> wasPlayingBeforeSeek s then [Play] else [])
     \<and> isPlaying (playbackState s') =
          (if due c + 300 \<le> T \<and> wasPlayingBeforeSeek s then True
           else isPlaying (playbackState s))"
proof (cases "due c \<le> T")
  case False
  with run_before [OF assms(1) assms(5), of T P] obtain s' where
    "runUntil P T s = Inr s'" and "undisturbed s s'"
    by auto
  with False show ?thesis by (auto simp add: undisturbed_def)
next
  case True
  from run_reach [OF assms(1) assms(5) assms(7) assms(8) True, of P] obtain s1 where
    r: "runUntil P T s = thenRun (fire P (action c) s1) (runUntil P T)"
    and u: "undisturbed s s1" and t1: "timers s1 = post" and n1: "now s1 = due c"
    by auto
  let ?r = "\<lparr>timer_id = nextTimerId s1, due = now s1 + 300, action = ResumePlayback\<rparr>"
  let ?s2 = "s1\<lparr>player := outcome P (SetCurrentTime pos) (player s1),
           issued := issued s1 @ [SetCurrentTime pos],
           playbackPositions :=
             savePlaybackPosition (props_videoId s1) pos (now s1) (playbackPositions s1),
           timers := (if wasPlayingBeforeSeek s1 then enqueue ?r (timers s1) else timers s1),
           nextTimerId := (if wasPlayingBeforeSeek s1 then Suc (nextTimerId s1)
                           else nextTimerId s1)\<rparr>"
  have f: "fire P (SeekResumeCommit pos) s1 = Inr ?s2"
    by (rule fire_SeekResumeCommit_accepted [OF assms(3)])
  from r f assms(2) have r2: "runUntil P T s = runUntil P T ?s2"
    by (simp add: thenRun_def)
  from u have w: "wasPlayingBeforeSeek s1 = wasPlayingBeforeSeek s"
    and i1: "issued s1 = issued s"
    and p1: "isPlaying (playbackState s1) = isPlaying (playbackState s)"
    by (simp_all add: undisturbed_def)
  show ?thesis
  proof (cases "wasPlayingBeforeSeek s")
    case False
    with w t1 assms(6) have "quiet (timers ?s2)" by simp
    from run_quiet [OF this, of P T] obtain s' where
      r': "runUntil P T ?s2 = Inr s'" and u': "undisturbed ?s2 s'"
      by auto
    with r2 True False i1 p1 show ?thesis by (auto simp add: undisturbed_def)
  next
    case wp: True
    from queue_after_seek [OF assms(6), of ?r] obtain pre2 post2 where
      e: "enqueue ?r post = pre2 @ ?r # post2" and q1: "quiet pre2" and q2: "quiet post2"
      and d: "\<forall>t \<in> set pre2. due t \<le> due ?r"
      by blast
    from wp w t1 e have t2: "timers ?s2 = pre2 @ ?r # post2" by simp
    have a: "action ?r = ResumePlayback" by simp
    have b: "now ?s2 \<le> due ?r" by simp
    from run_resume [OF t2 a assms(4) q1 q2 d b, of T] obtain s' where
      r': "runUntil P T ?s2 = Inr s'"
      and i': "issued s' = issued ?s2 @ (if due ?r \<le> T then [Play] else [])"
      and p': "isPlaying (playbackState s') =
                 (if due ?r \<le> T then True else isPlaying (playbackState ?s2))"
      by blast
    from r2 r' i' p' True wp i1 p1 n1 show ?thesis by simp
  qed
qed

section \<open>Debounced seeks\<close>

lemma filter_pauseIfPlaying: "filter isSetCurrentTime (pauseIfPlaying P s) = []"
  by (simp add: pauseIfPlaying_def)

lemma handleSeek_accepted:
  assumes "accepts P Pause"
  shows "\<exists>s'. handleSeek P pos s = Inr s'
     \<and> timers s' = enqueue \<lparr>timer_id = nextTimerId s, due = now s + 300,
                              action = SeekCommit pos\<rparr> (cleared (seekTimeout s) (timers s))
     \<and> seekTimeout s' = Some (nextTimerId s)
     \<and> nextTimerId s' = Suc (nextTimerId s)
     \<and> hideControlsTimeout s' = hideControlsTimeout s
     \<and> now s' = now s
     \<and> issued s' = issued s @ pauseIfPlaying P s
     \<and> isPlaying (playbackState s')
         = (isPlaying (playbackState s) \<and> \<not> player_playing P (player s))"
proof (cases "player_playing P (player s)")
  case True
  from handleSeek_playing [OF True assms] True show ?thesis
    by (simp add: pauseIfPlaying_def)
next
  case False
  from handleSeek_idle [OF False] False show ?thesis
    by (simp add: pauseIfPlaying_def)
qed

lemma handleSeekWithPause_accepted:
  assumes "accepts P Pause"
  shows "\<exists>s'. handleSeekWithPause P pos s = Inr s'
     \<and> timers s' = enqueue \<lparr>timer_id = nextTimerId s, due = now s + 100,
                              action = SeekResumeCommit pos\<rparr>
                      (cleared (seekTimeout s) (timers s))
     \<and> wasPlayingBeforeSeek s' = player_playing P (player s)
     \<and> nextTimerId s' = Suc (nextTimerId s)
     \<and> hideControlsTimeout s' = hideControlsTimeout s
     \<and> now s' = now s
     \<and> issued s' = issued s @ pauseIfPlaying P s
     \<and> isPlaying (playbackState s')
         = (isPlaying (playbackState s) \<and> \<not> player_playing P (player s))"
proof (cases "player_playing P (player s)")
  case True
  from handleSeekWithPause_playing [OF True assms] True show ?thesis
    by (simp add: pauseIfPlaying_def)
next
  case False
  from handleSeekWithPause_idle [OF False] False show ?thesis
    by (simp add: pauseIfPlaying_def)
qed

lemma showControlsWithTimer_fields:
  "timers (showControlsWithTimer s) =
     enqueue \<lparr>timer_id = nextTimerId s, due = now s + 3000, action = HideControls\<rparr>
       (cleared (hideControlsTimeout s) (timers s))"
  "issued (showControlsWithTimer s) = issued s"
  "playbackState (showControlsWithTimer s) = playbackState s"
  "wasPlayingBeforeSeek (showControlsWithTimer s) = wasPlayingBeforeSeek s"
  "now (showControlsWithTimer s) = now s"
  by (simp_all add: showControlsWithTimer_eq)

text \<open>
  Claim C5. Two seek requests through \<^verbatim>\<open>handleSeek\<close>, to \<open>a\<close> and then to \<open>b\<close> (10 and
  then 20 in the claim), the second made before the 300ms of the first have elapsed,
  result in exactly one \<^verbatim>\<open>setCurrentTime\<close> command to the primitive, with value \<open>b\<close>:
  the second request cancels the pending commit of the first, and once 300ms have
  passed after the second request its own commit has run and no seek is pending. The
  scenario starts with no other seek in flight (the pending timers, if any, only hide
  the controls or watch the loading time), and the primitive's \<^verbatim>\<open>pause()\<close> does not
  throw (a throw would end the second request before it schedules its commit).
\<close>

theorem two_rapid_seeks_commit_once:
  assumes calm: "quiet (timers s)" and pause: "accepts P Pause"
    and later: "now s \<le> t2" and window: "t2 < now s + 300" and waited: "t2 + 300 \<le> T"
  shows "\<exists>s' new. twoSeeks P a b t2 T s = Inr s'
     \<and> issued s' = issued s @ new
     \<and> filter isSetCurrentTime new = [SetCurrentTime b]
     \<and> quiet (timers s')"
proof -
  let ?c1 = "\<lparr>timer_id = nextTimerId s, due = now s + 300, action = SeekCommit a\<rparr>"
  from handleSeek_accepted [OF pause, of a s] obtain s1 where
    1: "handleSeek P a s = Inr s1" and
    t1: "timers s1 = enqueue ?c1 (cleared (seekTimeout s) (timers s))" and
    r1: "seekTimeout s1 = Some (nextTimerId s)" and
    n1: "now s1 = now s" and
    i1: "issued s1 = issued s @ pauseIfPlaying P s"
    by blast
  from calm have "quiet (cleared (seekTimeout s) (timers s))" by (rule quiet_cleared)
  from queue_after_seek [OF this, of ?c1] t1 obtain pre1 post1 where
    e1: "timers s1 = pre1 @ ?c1 # post1" and qpre1: "quiet pre1" and qpost1: "quiet post1"
    by auto
  from window have "t2 < due ?c1" by simp
  from run_before [OF e1 qpre1 this, of P] obtain s2 pre2 where
    2: "runUntil P t2 s1 = Inr s2" and u2: "undisturbed s1 s2" and
    t2: "timers s2 = pre2 @ ?c1 # post1" and qpre2: "quiet pre2" and
    n2: "now s2 = max (now s1) t2"
    by blast
  from u2 r1 have r2: "seekTimeout s2 = Some (timer_id ?c1)"
    and i2: "issued s2 = issued s1"
    by (simp_all add: undisturbed_def)
  let ?c2 = "\<lparr>timer_id = nextTimerId s2, due = now s2 + 300, action = SeekCommit b\<rparr>"
  from handleSeek_accepted [OF pause, of b s2] obtain s3 where
    3: "handleSeek P b s2 = Inr s3" and
    t3: "timers s3 = enqueue ?c2 (cleared (seekTimeout s2) (timers s2))" and
    n3: "now s3 = now s2" and
    i3: "issued s3 = issued s2 @ pauseIfPlaying P s2"
    by blast
  have "cleared (seekTimeout s2) (timers s2)
      = cleared (Some (timer_id ?c1)) pre2 @ cleared (Some (timer_id ?c1)) post1"
    unfolding r2 t2 cleared_append cleared_drop ..
  moreover from qpre2 qpost1 have
    "quiet (cleared (Some (timer_id ?c1)) pre2 @ cleared (Some (timer_id ?c1)) post1)"
    by (simp add: quiet_simps quiet_cleared)
  ultimately have "quiet (cleared (seekTimeout s2) (timers s2))" by simp
  from queue_after_seek [OF this, of ?c2] t3 obtain pre3 post3 where
    e3: "timers s3 = pre3 @ ?c2 # post3" and qpre3: "quiet pre3" and qpost3: "quiet post3"
    and d3: "\<forall>t \<in> set pre3. due t \<le> due ?c2"
    by auto
  have a3: "action ?c2 = SeekCommit b" by simp
  from n3 have b3: "now s3 \<le> due ?c2" by simp
  from n2 n1 later have "now s2 = t2" by simp
  with waited have w3: "due ?c2 \<le> T" by simp
  from run_commit [OF e3 a3 qpre3 qpost3 d3 b3, of P T] w3 obtain s4 where
    4: "runUntil P T s3 = Inr s4" and
    i4: "issued s4 = issued s3 @ [SetCurrentTime b]" and q4: "quiet (timers s4)"
    by auto
  from 1 2 3 4 have "twoSeeks P a b t2 T s = Inr s4"
    by (simp add: twoSeeks_def thenRun_def)
  moreover from i1 i2 i3 i4 have
    "issued s4 = issued s @ (pauseIfPlaying P s @ pauseIfPlaying P s2 @ [SetCurrentTime b])"
    by simp
  moreover have "filter isSetCurrentTime
      (pauseIfPlaying P s @ pauseIfPlaying P s2 @ [SetCurrentTime b]) = [SetCurrentTime b]"
    by (simp add: filter_pauseIfPlaying)
  ultimately show ?thesis using q4 by blast
qed

lemma accepts_promptPlayer: "accepts promptPlayer c"
  by (cases c) (simp_all add: accepts_def promptPlayer_readings)

theorem two_rapid_seeks_commit_once_witness:
  "quiet (timers (watchingSession promptPlayer))
   \<and> timers (watchingSession promptPlayer)
       = [\<lparr>timer_id = 1, due = 3000, action = HideControls\<rparr>]
   \<and> accepts promptPlayer Pause
   \<and> now (watchingSession promptPlayer) \<le> 200
   \<and> 200 < now (watchingSession promptPlayer) + 300
   \<and> (200::int) + 300 \<le> 1000
   \<and> (\<exists>s' new. twoSeeks promptPlayer 10 20 200 1000 (watchingSession promptPlayer) = Inr s'
        \<and> issued s' = issued (watchingSession promptPlayer) @ new
        \<and> filter isSetCurrentTime new = [SetCurrentTime 20]
        \<and> quiet (timers s'))"
proof -
  have q: "quiet (timers (watchingSession promptPlayer))"
    and t: "timers (watchingSession promptPlayer)
       = [\<lparr>timer_id = 1, due = 3000, action = HideControls\<rparr>]"
    and l: "now (watchingSession promptPlayer) \<le> 200"
    and w: "200 < now (watchingSession promptPlayer) + 300"
    and d: "(200::int) + 300 \<le> 1000"
    by (simp_all add: watchingSession_fields quiet_simps)
  from two_rapid_seeks_commit_once [OF q accepts_promptPlayer l w d, of 10 20]
    q t accepts_promptPlayer [of Pause] l w d
  show ?thesis by blast
qed

section \<open>The two seek paths\<close>

lemma thenRun_Inr: "thenRun (Inr a) f = f a"
  by (simp add: thenRun_def)

lemma thenRun_Inl: "thenRun (Inl e) f = Inl e"
  by (simp add: thenRun_def)

lemma plain_seek_run:
  assumes "settled s" and "accepts P Pause"
  shows "commandsSince s
           (thenRun (andThen (handleSeek P pos s) showControlsWithTimer) (runUntil P T))
         = Inr (plainSeekCommands P s pos T)
       \<and> isPlayingAfter
           (thenRun (andThen (handleSeek P pos s) showControlsWithTimer) (runUntil P T))
         = Inr (isPlaying (playbackState s) \<and> \<not> player_playing P (player s))"
proof -
  let ?c = "\<lparr>timer_id = nextTimerId s, due = now s + 300, action = SeekCommit pos\<rparr>"
  from handleSeek_accepted [OF assms(2), of pos s] obtain s1 where
    1: "handleSeek P pos s = Inr s1" and
    t1: "timers s1 = enqueue ?c (cleared (seekTimeout s) (timers s))" and
    h1: "hideControlsTimeout s1 = hideControlsTimeout s" and
    n1: "now s1 = now s" and
    i1: "issued s1 = issued s @ pauseIfPlaying P s" and
    p1: "isPlaying (playbackState s1)
           = (isPlaying (playbackState s) \<and> \<not> player_playing P (player s))"
    by blast
  let ?h = "\<lparr>timer_id = nextTimerId s1, due = now s1 + 3000, action = HideControls\<rparr>"
  let ?s2 = "showControlsWithTimer s1"
  from assms(1) have q: "quiet (cleared (seekTimeout s) (timers s))"
    and fresh: "hideControlsTimeout s1 \<noteq> Some (timer_id ?c)"
    by (simp_all add: settled_def quiet_cleared h1)
  from n1 have le: "due ?c \<le> due ?h" by simp
  have hh: "harmless (action ?h)" by simp
  from queue_after_seek_and_show [OF q fresh le hh] t1 obtain pre post where
    e: "timers ?s2 = pre @ ?c # post" and qpre: "quiet pre" and qpost: "quiet post"
    and d: "\<forall>t \<in> set pre. due t \<le> due ?c"
    by (auto simp add: showControlsWithTimer_fields)
  have a: "action ?c = SeekCommit pos" by simp
  from n1 have b: "now ?s2 \<le> due ?c" by (simp add: showControlsWithTimer_fields)
  from run_commit [OF e a qpre qpost d b, of P T] obtain s' where
    r: "runUntil P T ?s2 = Inr s'" and
    i': "issued s' = issued ?s2 @ (if due ?c \<le> T then [SetCurrentTime pos] else [])" and
    p': "isPlaying (playbackState s') = isPlaying (playbackState ?s2)"
    by blast
  from 1 r have
    "thenRun (andThen (handleSeek P pos s) showControlsWithTimer) (runUntil P T) = Inr s'"
    by (simp add: andThen_def thenRun_def)
  with i' p' i1 p1 show ?thesis
    by (simp add: commandsSince_def isPlayingAfter_def plainSeekCommands_def
        showControlsWithTimer_fields)
qed

lemma plain_seek_alone_run:
  assumes "settled s" and "accepts P Pause"
  shows "commandsSince s (thenRun (handleSeek P pos s) (runUntil P T))
         = Inr (plainSeekCommands P s pos T)
       \<and> isPlayingAfter (thenRun (handleSeek P pos s) (runUntil P T))
         = Inr (isPlaying (playbackState s) \<and> \<not> player_playing P (player s))"
proof -
  let ?c = "\<lparr>timer_id = nextTimerId s, due = now s + 300, action = SeekCommit pos\<rparr>"
  from handleSeek_accepted [OF assms(2), of pos s] obtain s1 where
    1: "handleSeek P pos s = Inr s1" and
    t1: "timers s1 = enqueue ?c (cleared (seekTimeout s) (timers s))" and
    n1: "now s1 = now s" and
    i1: "issued s1 = issued s @ pauseIfPlaying P s" and
    p1: "isPlaying (playbackState s1)
           = (isPlaying (playbackState s) \<and> \<not> player_playing P (player s))"
    by blast
  from assms(1) have q: "quiet (cleared (seekTimeout s) (timers s))"
    by (simp add: settled_def quiet_cleared)
  from queue_after_seek [OF q, of ?c] t1 obtain pre post where
    e: "timers s1 = pre @ ?c # post" and qpre: "quiet pre" and qpost: "quiet post"
    and d: "\<forall>t \<in> set pre. due t \<le> due ?c"
    by auto
  have a: "action ?c = SeekCommit pos" by simp
  from n1 have b: "now s1 \<le> due ?c" by simp
  from run_commit [OF e a qpre qpost d b, of P T] obtain s' where
    r: "runUntil P T s1 = Inr s'" and
    i': "issued s' = issued s1 @ (if due ?c \<le> T then [SetCurrentTime pos] else [])" and
    p': "isPlaying (playbackState s') = isPlaying (playbackState s1)"
    by blast
  from 1 r have "thenRun (handleSeek P pos s) (runUntil P T) = Inr s'"
    by (simp add: thenRun_def)
  with i' p' i1 p1 show ?thesis
    by (simp add: commandsSince_def isPlayingAfter_def plainSeekCommands_def)
qed

lemma seek_with_resume_run:
  assumes "settled s" and "accepts P Pause" and "accepts P (SetCurrentTime pos)"
    and "accepts P Play"
  shows "commandsSince s
           (thenRun (andThen (handleSeekWithPause P pos s) showControlsWithTimer) (runUntil P T))
         = Inr (seekWithResumeCommands P s pos T)
       \<and> isPlayingAfter
           (thenRun (andThen (handleSeekWithPause P pos s) showControlsWithTimer) (runUntil P T))
         = Inr (if player_playing P (player s) then now s + 100 + 300 \<le> T
                else isPlaying (playbackState s))"
proof -
  let ?c = "\<lparr>timer_id = nextTimerId s, due = now s + 100, action = SeekResumeCommit pos\<rparr>"
  from handleSeekWithPause_accepted [OF assms(2), of pos s] obtain s1 where
    1: "handleSeekWithPause P pos s = Inr s1" and
    t1: "timers s1 = enqueue ?c (cleared (seekTimeout s) (timers s))" and
    w1: "wasPlayingBeforeSeek s1 = player_playing P (player s)" and
    h1: "hideControlsTimeout s1 = hideControlsTimeout s" and
    n1: "now s1 = now s" and
    i1: "issued s1 = issued s @ pauseIfPlaying P s" and
    p1: "isPlaying (playbackState s1)
           = (isPlaying (playbackState s) \<and> \<not> player_playing P (player s))"
    by blast
  let ?h = "\<lparr>timer_id = nextTimerId s1, due = now s1 + 3000, action = HideControls\<rparr>"
  let ?s2 = "showControlsWithTimer s1"
  from assms(1) have q: "quiet (cleared (seekTimeout s) (timers s))"
    and fresh: "hideControlsTimeout s1 \<noteq> Some (timer_id ?c)"
    by (simp_all add: settled_def quiet_cleared h1)
  from n1 have le: "due ?c \<le> due ?h" by simp
  have hh: "harmless (action ?h)" by simp
  from queue_after_seek_and_show [OF q fresh le hh] t1 obtain pre post where
    e: "timers ?s2 = pre @ ?c # post" and qpre: "quiet pre" and qpost: "quiet post"
    and d: "\<forall>t \<in> set pre. due t \<le> due ?c"
    by (auto simp add: showControlsWithTimer_fields)
  have a: "action ?c = SeekResumeCommit pos" by simp
  from n1 have b: "now ?s2 \<le> due ?c" by (simp add: showControlsWithTimer_fields)
  from run_resume_commit [OF e a assms(3) assms(4) qpre qpost d b, of T] obtain s' where
    r: "runUntil P T ?s2 = Inr s'" and
    i': "issued s' = issued ?s2 @ (if due ?c \<le> T then [SetCurrentTime pos] else [])
          @ (if due ?c + 300 \<le> T \<and> wasPlayingBeforeSeek ?s2 then [Play] else [])" and
    p': "isPlaying (playbackState s') =
          (if due ?c + 300 \<le> T \<and> wasPlayingBeforeSeek ?s2 then True
           else isPlaying (playbackState ?s2))"
    by blast
  from 1 r have
    "thenRun (andThen (handleSeekWithPause P pos s) showControlsWithTimer) (runUntil P T)
       = Inr s'"
    by (simp add: andThen_def thenRun_def)
  with i' p' i1 p1 w1 show ?thesis
    by (simp add: commandsSince_def isPlayingAfter_def seekWithResumeCommands_def
        showControlsWithTimer_fields)
qed

lemma press_left_on_progress:
  "focusedControl s = Some Progress \<Longrightarrow>
   handleTVRemoteKey P (press ''left'') s =
     andThen (handleSeek P (max 0 (currentTime (playbackState s) - 10)) s) showControlsWithTimer"
  by (simp add: handleTVRemoteKey_def press_def Let_def)

lemma press_right_on_progress:
  "focusedControl s = Some Progress \<Longrightarrow>
   handleTVRemoteKey P (press ''right'') s =
     andThen (handleSeek P (min (duration (playbackState s)) (currentTime (playbackState s) + 10)) s)
       showControlsWithTimer"
  by (simp add: handleTVRemoteKey_def press_def Let_def)

lemma press_select_on_seekForward:
  "focusedControl s = Some SeekForward \<Longrightarrow>
   handleTVRemoteKey P (press ''select'') s =
     andThen (handleSeekWithPause P
                (min (currentTime (playbackState s) + 10) (duration (playbackState s))) s)
       showControlsWithTimer"
  by (simp add: handleTVRemoteKey_def press_def handleSeekForward_def)

lemma press_select_on_seekBackward:
  "focusedControl s = Some SeekBackward \<Longrightarrow>
   handleTVRemoteKey P (press ''select'') s =
     andThen (handleSeekWithPause P (max (currentTime (playbackState s) - 10) 0) s)
       showControlsWithTimer"
  by (simp add: handleTVRemoteKey_def press_def handleSeekBackward_def)

lemma progressBarPress_seeks:
  "0 < duration (playbackState s) \<Longrightarrow>
   progressBarPress P x w s =
     handleSeek P (max 0 (min (duration (playbackState s)) (x / w * duration (playbackState s)))) s"
  by (simp add: progressBarPress_def Let_def)

text \<open>
  Claim C3, as the code has it. Progress-bar seeks (a left or right press of the remote
  while the progress control is focused, and a press on the progress bar) call
  \<^verbatim>\<open>handleSeek\<close>, the plain seek: the player is paused if it is playing, the primitive
  seek commits 300ms after the request, and playback is not resumed. Only the 10-second
  jumps (select on \<^verbatim>\<open>seekForward\<close> or \<^verbatim>\<open>seekBackward\<close>) call \<^verbatim>\<open>handleSeekWithPause\<close>:
  for one jump, whether the player was playing is captured at the request, the seek
  commits after 100ms, and if it was playing, \<^verbatim>\<open>play()\<close> follows 300ms after the commit
  (every request captures anew: \<open>handleSeekWithPause_accepted\<close>).
  Stated for one request made in a session at rest (no seek in flight; timers that hide
  the controls or watch the loading time may be pending), with a primitive that does not
  throw, and for every later time \<open>T\<close>.
\<close>

theorem progress_seeks_take_plain_path:
  assumes rest: "settled s" and ok: "\<And>c. accepts P c"
  shows
    "(focusedControl s = Some Progress \<longrightarrow>
        commandsSince s (thenRun (handleTVRemoteKey P (press ''left'') s) (runUntil P T))
          = Inr (plainSeekCommands P s (max 0 (currentTime (playbackState s) - 10)) T)
        \<and> isPlayingAfter (thenRun (handleTVRemoteKey P (press ''left'') s) (runUntil P T))
          = Inr (isPlaying (playbackState s) \<and> \<not> player_playing P (player s))
        \<and> commandsSince s (thenRun (handleTVRemoteKey P (press ''right'') s) (runUntil P T))
          = Inr (plainSeekCommands P s
                   (min (duration (playbackState s)) (currentTime (playbackState s) + 10)) T)
        \<and> isPlayingAfter (thenRun (handleTVRemoteKey P (press ''right'') s) (runUntil P T))
          = Inr (isPlaying (playbackState s) \<and> \<not> player_playing P (player s)))
     \<and> (0 < duration (playbackState s) \<and> 0 < w \<longrightarrow>
        commandsSince s (thenRun (progressBarPress P x w s) (runUntil P T))
          = Inr (plainSeekCommands P s
                   (max 0 (min (duration (playbackState s))
                      (x / w * duration (playbackState s)))) T)
        \<and> isPlayingAfter (thenRun (progressBarPress P x w s) (runUntil P T))
          = Inr (isPlaying (playbackState s) \<and> \<not> player_playing P (player s)))
     \<and> (focusedControl s = Some SeekForward \<longrightarrow>
        commandsSince s (thenRun (handleTVRemoteKey P (press ''select'') s) (runUntil P T))
          = Inr (seekWithResumeCommands P s
                   (min (currentTime (playbackState s) + 10) (duration (playbackState s))) T)
        \<and> isPlayingAfter (thenRun (handleTVRemoteKey P (press ''select'') s) (runUntil P T))
          = Inr (if player_playing P (player s) then now s + 100 + 300 \<le> T
                 else isPlaying (playbackState s)))
     \<and> (focusedControl s = Some SeekBackward \<longrightarrow>
        commandsSince s (thenRun (handleTVRemoteKey P (press ''select'') s) (runUntil P T))
          = Inr (seekWithResumeCommands P s (max (currentTime (playbackState s) - 10) 0) T)
        \<and> isPlayingAfter (thenRun (handleTVRemoteKey P (press ''select'') s) (runUntil P T))
          = Inr (if player_playing P (player s) then now s + 100 + 300 \<le> T
                 else isPlaying (playbackState s)))"
proof -
  note plain = plain_seek_run [OF rest ok]
  note alone = plain_seek_alone_run [OF rest ok]
  note jump = seek_with_resume_run [OF rest ok ok ok]
  have a: "focusedControl s = Some Progress \<longrightarrow>
        commandsSince s (thenRun (handleTVRemoteKey P (press ''left'') s) (runUntil P T))
          = Inr (plainSeekCommands P s (max 0 (currentTime (playbackState s) - 10)) T)
        \<and> isPlayingAfter (thenRun (handleTVRemoteKey P (press ''left'') s) (runUntil P T))
          = Inr (isPlaying (playbackState s) \<and> \<not> player_playing P (player s))
        \<and> commandsSince s (thenRun (handleTVRemoteKey P (press ''right'') s) (runUntil P T))
          = Inr (plainSeekCommands P s
                   (min (duration (playbackState s)) (currentTime (playbackState s) + 10)) T)
        \<and> isPlayingAfter (thenRun (handleTVRemoteKey P (press ''right'') s) (runUntil P T))
          = Inr (isPlaying (playbackState s) \<and> \<not> player_playing P (player s))"
    using plain by (simp add: press_left_on_progress press_right_on_progress)
  have b: "0 < duration (playbackState s) \<and> 0 < w \<longrightarrow>
        commandsSince s (thenRun (progressBarPress P x w s) (runUntil P T))
          = Inr (plainSeekCommands P s
                   (max 0 (min (duration (playbackState s))
                      (x / w * duration (playbackState s)))) T)
        \<and> isPlayingAfter (thenRun (progressBarPress P x w s) (runUntil P T))
          = Inr (isPlaying (playbackState s) \<and> \<not> player_playing P (player s))"
    using alone by (simp add: progressBarPress_seeks)
  have c: "focusedControl s = Some SeekForward \<longrightarrow>
        commandsSince s (thenRun (handleTVRemoteKey P (press ''select'') s) (runUntil P T))
          = Inr (seekWithResumeCommands P s
                   (min (currentTime (playbackState s) + 10) (duration (playbackState s))) T)
        \<and> isPlayingAfter (thenRun (handleTVRemoteKey P (press ''select'') s) (runUntil P T))
          = Inr (if player_playing P (player s) then now s + 100 + 300 \<le> T
                 else isPlaying (playbackState s))"
    using jump by (simp add: press_select_on_seekForward)
  have d: "focusedControl s = Some SeekBackward \<longrightarrow>
        commandsSince s (thenRun (handleTVRemoteKey P (press ''select'') s) (runUntil P T))
          = Inr (seekWithResumeCommands P s (max (currentTime (playbackState s) - 10) 0) T)
        \<and> isPlayingAfter (thenRun (handleTVRemoteKey P (press ''select'') s) (runUntil P T))
          = Inr (if player_playing P (player s) then now s + 100 + 300 \<le> T
                 else isPlaying (playbackState s))"
    using jump by (simp add: press_select_on_seekBackward)
  from a b c d show ?thesis by blast
qed

text \<open>The sample session with a given control focused.\<close>

lemma settled_playingSession:
  "settled ((playingSession P)\<lparr>focusedControl := f\<rparr>)"
  by (simp add: settled_def playingSession_fields quiet_simps)

lemma plainSeekCommands_playingSession:
  "plainSeekCommands promptPlayer ((playingSession promptPlayer)\<lparr>focusedControl := f\<rparr>) pos T
     = Pause # (if 300 \<le> T then [SetCurrentTime pos] else [])"
  by (simp add: plainSeekCommands_def pauseIfPlaying_def promptPlayer_readings
      playingSession_fields)

lemma seekWithResumeCommands_playingSession:
  "seekWithResumeCommands promptPlayer ((playingSession promptPlayer)\<lparr>focusedControl := f\<rparr>) pos T
     = Pause # (if 100 \<le> T then [SetCurrentTime pos] else [])
         @ (if 400 \<le> T then [Play] else [])"
  by (simp add: seekWithResumeCommands_def pauseIfPlaying_def promptPlayer_readings
      playingSession_fields)

lemma settled_watchingSession:
  "settled ((watchingSession P)\<lparr>focusedControl := f\<rparr>)"
  by (simp add: settled_def watchingSession_fields quiet_simps)

lemma plainSeekCommands_watchingSession:
  "plainSeekCommands promptPlayer ((watchingSession promptPlayer)\<lparr>focusedControl := f\<rparr>) pos T
     = Pause # (if 300 \<le> T then [SetCurrentTime pos] else [])"
  by (simp add: plainSeekCommands_def pauseIfPlaying_def promptPlayer_readings
      watchingSession_fields playingSession_fields)

lemma seekWithResumeCommands_watchingSession:
  "seekWithResumeCommands promptPlayer ((watchingSession promptPlayer)\<lparr>focusedControl := f\<rparr>) pos T
     = Pause # (if 100 \<le> T then [SetCurrentTime pos] else [])
         @ (if 400 \<le> T then [Play] else [])"
  by (simp add: seekWithResumeCommands_def pauseIfPlaying_def promptPlayer_readings
      watchingSession_fields playingSession_fields)

theorem progress_seeks_take_plain_path_witness:
  "settled ((watchingSession promptPlayer)\<lparr>focusedControl := Some Progress\<rparr>)
   \<and> settled ((watchingSession promptPlayer)\<lparr>focusedControl := Some SeekForward\<rparr>)
   \<and> accepts promptPlayer Pause \<and> accepts promptPlayer (SetCurrentTime 40)
   \<and> accepts promptPlayer (SetCurrentTime 60) \<and> accepts promptPlayer Play
   \<and> commandsSince ((watchingSession promptPlayer)\<lparr>focusedControl := Some Progress\<rparr>)
       (thenRun (handleTVRemoteKey promptPlayer (press ''left'')
                   ((watchingSession promptPlayer)\<lparr>focusedControl := Some Progress\<rparr>))
          (runUntil promptPlayer 5000))
       = Inr [Pause, SetCurrentTime 40]
   \<and> isPlayingAfter
       (thenRun (handleTVRemoteKey promptPlayer (press ''left'')
                   ((watchingSession promptPlayer)\<lparr>focusedControl := Some Progress\<rparr>))
          (runUntil promptPlayer 5000))
       = Inr False
   \<and> commandsSince ((watchingSession promptPlayer)\<lparr>focusedControl := Some Progress\<rparr>)
       (thenRun (progressBarPress promptPlayer 80 400
                   ((watchingSession promptPlayer)\<lparr>focusedControl := Some Progress\<rparr>))
          (runUntil promptPlayer 5000))
       = Inr [Pause, SetCurrentTime 20]
   \<and> commandsSince ((watchingSession promptPlayer)\<lparr>focusedControl := Some SeekForward\<rparr>)
       (thenRun (handleTVRemoteKey promptPlayer (press ''select'')
                   ((watchingSession promptPlayer)\<lparr>focusedControl := Some SeekForward\<rparr>))
          (runUntil promptPlayer 5000))
       = Inr [Pause, SetCurrentTime 60, Play]
   \<and> isPlayingAfter
       (thenRun (handleTVRemoteKey promptPlayer (press ''select'')
                   ((watchingSession promptPlayer)\<lparr>focusedControl := Some SeekForward\<rparr>))
          (runUntil promptPlayer 5000))
       = Inr True
   \<and> settled ((watchingSession promptPlayer)\<lparr>focusedControl := Some SeekBackward\<rparr>)
   \<and> commandsSince ((watchingSession promptPlayer)\<lparr>focusedControl := Some SeekBackward\<rparr>)
       (thenRun (handleTVRemoteKey promptPlayer (press ''select'')
                   ((watchingSession promptPlayer)\<lparr>focusedControl := Some SeekBackward\<rparr>))
          (runUntil promptPlayer 5000))
       = Inr [Pause, SetCurrentTime 40, Play]"
  using
    progress_seeks_take_plain_path
      [where s = "(watchingSession promptPlayer)\<lparr>focusedControl := Some SeekBackward\<rparr>"
         and P = promptPlayer and T = 5000 and w = 400 and x = 80,
       OF settled_watchingSession accepts_promptPlayer]
    settled_watchingSession [where P = promptPlayer and f = "Some SeekBackward"]
    progress_seeks_take_plain_path
      [where s = "(watchingSession promptPlayer)\<lparr>focusedControl := Some Progress\<rparr>"
         and P = promptPlayer and T = 5000 and w = 400 and x = 80,
       OF settled_watchingSession accepts_promptPlayer]
    progress_seeks_take_plain_path
      [where s = "(watchingSession promptPlayer)\<lparr>focusedControl := Some SeekForward\<rparr>"
         and P = promptPlayer and T = 5000 and w = 400 and x = 80,
       OF settled_watchingSession accepts_promptPlayer]
    settled_watchingSession [where P = promptPlayer and f = "Some Progress"]
    settled_watchingSession [where P = promptPlayer and f = "Some SeekForward"]
    accepts_promptPlayer
  by (simp add: plainSeekCommands_watchingSession seekWithResumeCommands_watchingSession
      promptPlayer_readings watchingSession_fields playingSession_fields)

text \<open>
  The claim as the spec states it fails: a left press on the focused progress bar while
  the player is playing has not committed the seek 299ms later (seek-with-resume would
  have, after 100ms), and 5 seconds later the seek is committed and playback has not
  resumed (seek-with-resume would have issued \<^verbatim>\<open>play()\<close>).
\<close>

theorem progress_seek_no_resume_counterexample:
  "commandsSince ((playingSession promptPlayer)\<lparr>focusedControl := Some Progress\<rparr>)
       (thenRun (handleTVRemoteKey promptPlayer (press ''left'')
                   ((playingSession promptPlayer)\<lparr>focusedControl := Some Progress\<rparr>))
          (runUntil promptPlayer 299))
       = Inr [Pause]
   \<and> seekWithResumeCommands promptPlayer
         ((playingSession promptPlayer)\<lparr>focusedControl := Some Progress\<rparr>) 40 299
       = [Pause, SetCurrentTime 40]
   \<and> commandsSince ((playingSession promptPlayer)\<lparr>focusedControl := Some Progress\<rparr>)
       (thenRun (handleTVRemoteKey promptPlayer (press ''left'')
                   ((playingSession promptPlayer)\<lparr>focusedControl := Some Progress\<rparr>))
          (runUntil promptPlayer 5000))
       = Inr [Pause, SetCurrentTime 40]
   \<and> seekWithResumeCommands promptPlayer
         ((playingSession promptPlayer)\<lparr>focusedControl := Some Progress\<rparr>) 40 5000
       = [Pause, SetCurrentTime 40, Play]
   \<and> isPlayingAfter
       (thenRun (handleTVRemoteKey promptPlayer (press ''left'')
                   ((playingSession promptPlayer)\<lparr>focusedControl := Some Progress\<rparr>))
          (runUntil promptPlayer 5000))
       = Inr False"
  using
    plain_seek_run
      [where s = "(playingSession promptPlayer)\<lparr>focusedControl := Some Progress\<rparr>"
         and P = promptPlayer and pos = 40 and T = 299,
       OF settled_playingSession accepts_promptPlayer]
    plain_seek_run
      [where s = "(playingSession promptPlayer)\<lparr>focusedControl := Some Progress\<rparr>"
         and P = promptPlayer and pos = 40 and T = 5000,
       OF settled_playingSession accepts_promptPlayer]
  by (simp add: press_left_on_progress plainSeekCommands_playingSession
      seekWithResumeCommands_playingSession promptPlayer_readings playingSession_fields)

end
